theory Spec2Isabelle
  imports Main "HOL-Library.Sublist"
begin

section \<open>Python strings and the regular expressions of the safety module\<close>

text \<open>
  The safety module (\<^verbatim>\<open>colonel/safety.py\<close>) is written with Python's \<^verbatim>\<open>re\<close> library.
  The patterns of the module use literals, \<^verbatim>\<open>.\<close>, \<^verbatim>\<open>\s\<close>, \<^verbatim>\<open>\S\<close>, character classes,
  \<^verbatim>\<open>\b\<close>, \<^verbatim>\<open>$\<close>, groups, alternation and the greedy quantifiers \<^verbatim>\<open>?\<close>, \<^verbatim>\<open>*\<close>, \<^verbatim>\<open>+\<close>
  and \<^verbatim>\<open>{n}\<close>. This section gives that fragment a backtracking semantics: a matcher
  returns the states it can reach in the order in which a backtracking engine tries
  them, so the head of the list is the match that \<^verbatim>\<open>re.search\<close> and \<^verbatim>\<open>re.sub\<close> take.

  Strings are lists of 8-bit characters; the character tables below are the ASCII ones
  (\<^verbatim>\<open>\s\<close> is the ASCII white space of a Python \<^verbatim>\<open>str\<close> pattern, which includes the
  separators 0x1C to 0x1F; \<^verbatim>\<open>\w\<close> is letters, digits and underscore).
\<close>

definition bsl :: string where
  "bsl = [CHR 0x5C]"

definition esc :: char where
  "esc = CHR 0x1B"

definition ascii_upper :: string where
  "ascii_upper = ''ABCDEFGHIJKLMNOPQRSTUVWXYZ''"

definition ascii_lower :: string where
  "ascii_lower = ''abcdefghijklmnopqrstuvwxyz''"

definition ascii_digits :: string where
  "ascii_digits = ''0123456789''"

definition lower_char :: "char \<Rightarrow> char" where
  "lower_char c = (case map_of (zip ascii_upper ascii_lower) c of Some l \<Rightarrow> l | None \<Rightarrow> c)"

definition is_space :: "char \<Rightarrow> bool" where
  "is_space c = (c \<in> set [CHR 0x09, CHR 0x0A, CHR 0x0B, CHR 0x0C, CHR 0x0D,
                              CHR 0x1C, CHR 0x1D, CHR 0x1E, CHR 0x1F, CHR 0x20])"

definition is_word :: "char \<Rightarrow> bool" where
  "is_word c = (c \<in> set (ascii_lower @ ascii_upper @ ascii_digits @ ''_''))"

text \<open>Decimal rendering of a length, as an f-string prints an \<^verbatim>\<open>int\<close>.\<close>

definition digit_char :: "nat \<Rightarrow> char" where
  "digit_char d = ascii_digits ! d"

fun str_nat :: "nat \<Rightarrow> string" where
  "str_nat n = (if n < 10 then [digit_char n] else str_nat (n div 10) @ [digit_char (n mod 10)])"

declare str_nat.simps [simp del]

text \<open>Python's slice \<^verbatim>\<open>xs[:n]\<close>: a negative bound counts from the end.\<close>

definition py_take :: "int \<Rightarrow> 'a list \<Rightarrow> 'a list" where
  "py_take n xs = (if 0 \<le> n then take (nat n) xs else take (length xs - nat (- n)) xs)"

subsection \<open>Regular expressions\<close>

datatype regex =
    Eps
  | Chr char
  | AnyChar
  | Space
  | NonSpace
  | OneOf string
  | WordB
  | Eos
  | Seq regex regex
  | Alt regex regex
  | Opt regex
  | Star regex
  | Plus regex
  | Rep nat regex
  | Group nat regex

text \<open>
  A matcher state: the character before the current position (for \<^verbatim>\<open>\b\<close>), the text
  still to read, and the groups captured so far (latest first).
\<close>

datatype mstate = MState (prev: "char option") (rest: string) (caps: "(nat \<times> string) list")

definition step_if :: "(char \<Rightarrow> bool) \<Rightarrow> mstate \<Rightarrow> mstate list" where
  "step_if p st = (case rest st of [] \<Rightarrow> []
                   | x # xs \<Rightarrow> if p x then [MState (Some x) xs (caps st)] else [])"

text \<open>
  Greedy repetition: one more iteration first, stopping here last. An iteration that
  reads nothing is not repeated; the fuel is the length of the text still to read, which
  every iteration shortens.
\<close>

fun star_iter :: "(mstate \<Rightarrow> mstate list) \<Rightarrow> nat \<Rightarrow> mstate \<Rightarrow> mstate list" where
  "star_iter f 0 st = [st]"
| "star_iter f (Suc n) st =
     concat (map (\<lambda>st'. if length (rest st') < length (rest st) then star_iter f n st' else [])
                 (f st)) @ [st]"

fun rep_iter :: "(mstate \<Rightarrow> mstate list) \<Rightarrow> nat \<Rightarrow> mstate \<Rightarrow> mstate list" where
  "rep_iter f 0 st = [st]"
| "rep_iter f (Suc n) st = concat (map (rep_iter f n) (f st))"

definition at_word_boundary :: "mstate \<Rightarrow> bool" where
  "at_word_boundary st =
     ((case prev st of None \<Rightarrow> False | Some c \<Rightarrow> is_word c)
      \<noteq> (case rest st of [] \<Rightarrow> False | c # _ \<Rightarrow> is_word c))"

text \<open>
  \<open>rmatch r ic st\<close>: the states reachable from \<open>st\<close> by matching \<open>r\<close>, in the order of a
  backtracking engine; \<open>ic\<close> is the flag \<^verbatim>\<open>re.IGNORECASE\<close>. \<^verbatim>\<open>.\<close> does not match a
  newline, and \<^verbatim>\<open>$\<close> matches at the end of the text or before a final newline.
\<close>

primrec rmatch :: "regex \<Rightarrow> bool \<Rightarrow> mstate \<Rightarrow> mstate list" where
  "rmatch Eps ic = (\<lambda>st. [st])"
| "rmatch (Chr c) ic = step_if (\<lambda>x. if ic then lower_char x = lower_char c else x = c)"
| "rmatch AnyChar ic = step_if (\<lambda>x. x \<noteq> CHR 0x0A)"
| "rmatch Space ic = step_if is_space"
| "rmatch NonSpace ic = step_if (\<lambda>x. \<not> is_space x)"
| "rmatch (OneOf cs) ic =
     step_if (\<lambda>x. if ic then lower_char x \<in> set (map lower_char cs) else x \<in> set cs)"
| "rmatch WordB ic = (\<lambda>st. if at_word_boundary st then [st] else [])"
| "rmatch Eos ic = (\<lambda>st. if rest st = [] \<or> rest st = [CHR 0x0A] then [st] else [])"
| "rmatch (Seq a b) ic = (\<lambda>st. concat (map (rmatch b ic) (rmatch a ic st)))"
| "rmatch (Alt a b) ic = (\<lambda>st. rmatch a ic st @ rmatch b ic st)"
| "rmatch (Opt a) ic = (\<lambda>st. rmatch a ic st @ [st])"
| "rmatch (Star a) ic = (\<lambda>st. star_iter (rmatch a ic) (length (rest st)) st)"
| "rmatch (Plus a) ic =
     (\<lambda>st. concat (map (\<lambda>st'. star_iter (rmatch a ic) (length (rest st')) st')
                        (rmatch a ic st)))"
| "rmatch (Rep n a) ic = rep_iter (rmatch a ic) n"
| "rmatch (Group k a) ic =
     (\<lambda>st. map (\<lambda>st'. MState (prev st') (rest st')
                          ((k, take (length (rest st) - length (rest st')) (rest st)) # caps st'))
                (rmatch a ic st))"

text \<open>\<^verbatim>\<open>re.search\<close>: is there a match starting at some position, tried from the left.\<close>

fun re_search_from :: "regex \<Rightarrow> bool \<Rightarrow> char option \<Rightarrow> string \<Rightarrow> bool" where
  "re_search_from r ic p [] = (rmatch r ic (MState p [] []) \<noteq> [])"
| "re_search_from r ic p (c # cs) =
     (rmatch r ic (MState p (c # cs) []) \<noteq> [] \<or> re_search_from r ic (Some c) cs)"

definition re_search :: "regex \<Rightarrow> bool \<Rightarrow> string \<Rightarrow> bool" where
  "re_search r ic s = re_search_from r ic None s"

text \<open>
  The replacement of \<^verbatim>\<open>re.sub\<close>: a template of literal text and group references
  (\<^verbatim>\<open>\1\<close>), or a function of the matched text.
\<close>

datatype tpl_item = TLit string | TGroup nat

datatype repl = Template "tpl_item list" | Callable "string \<Rightarrow> string"

fun expand_item :: "mstate \<Rightarrow> tpl_item \<Rightarrow> string" where
  "expand_item m (TLit s) = s"
| "expand_item m (TGroup k) = (case map_of (caps m) k of Some g \<Rightarrow> g | None \<Rightarrow> [])"

fun expand :: "repl \<Rightarrow> mstate \<Rightarrow> string \<Rightarrow> string" where
  "expand (Template items) m matched = concat (map (expand_item m) items)"
| "expand (Callable f) m matched = f matched"

text \<open>
  \<^verbatim>\<open>re.sub\<close>: the leftmost match at each position is replaced and the scan goes on after
  it; a character that starts no match is copied. (After an empty match the next
  character is copied; no pattern of the module matches the empty text.)
\<close>

function re_sub_from :: "regex \<Rightarrow> bool \<Rightarrow> repl \<Rightarrow> char option \<Rightarrow> string \<Rightarrow> string" where
  "re_sub_from r ic rp p s =
     (case rmatch r ic (MState p s []) of
        [] \<Rightarrow> (case s of [] \<Rightarrow> [] | c # cs \<Rightarrow> c # re_sub_from r ic rp (Some c) cs)
      | m # _ \<Rightarrow>
          if length (rest m) < length s
          then expand rp m (take (length s - length (rest m)) s)
                 @ re_sub_from r ic rp (prev m) (rest m)
          else expand rp m []
                 @ (case s of [] \<Rightarrow> [] | c # cs \<Rightarrow> c # re_sub_from r ic rp (Some c) cs))"
  by pat_completeness auto
termination
  by (relation "measure (\<lambda>(r, ic, rp, p, s). length s)") auto

declare re_sub_from.simps [simp del]

definition re_sub :: "regex \<Rightarrow> bool \<Rightarrow> repl \<Rightarrow> string \<Rightarrow> string" where
  "re_sub r ic rp s = re_sub_from r ic rp None s"

primrec lit :: "string \<Rightarrow> regex" where
  "lit [] = Eps"
| "lit (c # cs) = Seq (Chr c) (lit cs)"

primrec seqs :: "regex list \<Rightarrow> regex" where
  "seqs [] = Eps"
| "seqs (r # rs) = Seq r (seqs rs)"

primrec alts :: "regex list \<Rightarrow> regex" where
  "alts [] = Eps"
| "alts (r # rs) = (if rs = [] then r else Alt r (alts rs))"

section \<open>Safety validator (\<^verbatim>\<open>colonel/safety.py\<close>)\<close>

text \<open>
  Each pattern is kept as its source text (the text that \<open>validate_command\<close> quotes in
  its reason) together with its syntax tree.
\<close>

definition BLOCKED_PATTERNS :: "(string \<times> regex) list" where
  "BLOCKED_PATTERNS = [
     (bsl @ ''brm'' @ bsl @ ''s+(-rf?'' @ bsl @ ''s+)?/'' @ bsl @ ''s*$'',
      seqs [WordB, lit ''rm'', Plus Space,
            Opt (Group 1 (seqs [lit ''-r'', Opt (Chr CHR ''f''), Plus Space])),
            Chr CHR ''/'', Star Space, Eos]),
     (bsl @ ''brm'' @ bsl @ ''s+(-rf?'' @ bsl @ ''s+)?/'' @ bsl @ ''*'',
      seqs [WordB, lit ''rm'', Plus Space,
            Opt (Group 1 (seqs [lit ''-r'', Opt (Chr CHR ''f''), Plus Space])),
            Chr CHR ''/'', Chr CHR ''*'']),
     (bsl @ ''bmkfs'' @ bsl @ ''b'',
      seqs [WordB, lit ''mkfs'', WordB]),
     (bsl @ ''bdd'' @ bsl @ ''s+.*of=/dev/'',
      seqs [WordB, lit ''dd'', Plus Space, Star AnyChar, lit ''of=/dev/'']),
     ('':(){.*};:'',
      seqs [Chr CHR '':'', Group 1 Eps, Chr CHR ''{'', Star AnyChar, lit ''};:'']),
     (bsl @ ''bshutdown'' @ bsl @ ''b'',
      seqs [WordB, lit ''shutdown'', WordB]),
     (bsl @ ''breboot'' @ bsl @ ''b'',
      seqs [WordB, lit ''reboot'', WordB]),
     (bsl @ ''binit'' @ bsl @ ''s+0'' @ bsl @ ''b'',
      seqs [WordB, lit ''init'', Plus Space, Chr CHR ''0'', WordB]),
     (bsl @ ''bpoweroff'' @ bsl @ ''b'',
      seqs [WordB, lit ''poweroff'', WordB]),
     (''>'' @ bsl @ ''s*/dev/sd'',
      seqs [Chr CHR ''>'', Star Space, lit ''/dev/sd'']),
     (bsl @ ''bchmod'' @ bsl @ ''s+777'' @ bsl @ ''s+/'',
      seqs [WordB, lit ''chmod'', Plus Space, lit ''777'', Plus Space, Chr CHR ''/'']),
     (bsl @ ''bchown'' @ bsl @ ''s+.*'' @ bsl @ ''s+/'' @ bsl @ ''s*$'',
      seqs [WordB, lit ''chown'', Plus Space, Star AnyChar, Plus Space, Chr CHR ''/'',
            Star Space, Eos]),
     (''DROP'' @ bsl @ ''s+DATABASE'',
      seqs [lit ''DROP'', Plus Space, lit ''DATABASE'']),
     (''DROP'' @ bsl @ ''s+TABLE.*CASCADE'',
      seqs [lit ''DROP'', Plus Space, lit ''TABLE'', Star AnyChar, lit ''CASCADE'']),
     (''TRUNCATE'' @ bsl @ ''s+TABLE'',
      seqs [lit ''TRUNCATE'', Plus Space, lit ''TABLE'']),
     (bsl @ ''bcurl'' @ bsl @ ''b.*'' @ bsl @ ''|'' @ bsl @ ''s*(ba)?sh'',
      seqs [WordB, lit ''curl'', WordB, Star AnyChar, Chr CHR ''|'', Star Space,
            Opt (Group 1 (lit ''ba'')), lit ''sh'']),
     (bsl @ ''bwget'' @ bsl @ ''b.*'' @ bsl @ ''|'' @ bsl @ ''s*(ba)?sh'',
      seqs [WordB, lit ''wget'', WordB, Star AnyChar, Chr CHR ''|'', Star Space,
            Opt (Group 1 (lit ''ba'')), lit ''sh'']),
     (''python.*-c.*import'' @ bsl @ ''s+os.*system'',
      seqs [lit ''python'', Star AnyChar, lit ''-c'', Star AnyChar, lit ''import'', Plus Space,
            lit ''os'', Star AnyChar, lit ''system'']),
     (bsl @ ''biptables'' @ bsl @ ''s+(-F|--flush)'',
      seqs [WordB, lit ''iptables'', Plus Space, Group 1 (Alt (lit ''-F'') (lit ''--flush''))]),
     (''docker'' @ bsl @ ''s+system'' @ bsl @ ''s+prune'' @ bsl @ ''s+-a'',
      seqs [lit ''docker'', Plus Space, lit ''system'', Plus Space, lit ''prune'', Plus Space,
            lit ''-a''])
   ]"

definition CONFIRMATION_PATTERNS :: "(regex \<times> string) list" where
  "CONFIRMATION_PATTERNS = [
     (seqs [WordB, lit ''docker'', Plus Space,
            Group 1 (alts [lit ''stop'', lit ''kill'', lit ''rm'', lit ''restart''])],
      ''This will affect a running container''),
     (seqs [WordB, lit ''docker'', Plus Space, lit ''compose'', Plus Space,
            Group 1 (alts [lit ''down'', lit ''stop'', lit ''restart''])],
      ''This will affect multiple containers''),
     (seqs [WordB, lit ''systemctl'', Plus Space,
            Group 1 (alts [lit ''stop'', lit ''restart'', lit ''disable''])],
      ''This will affect a system service''),
     (seqs [WordB, lit ''kill'', WordB],
      ''This will terminate a process''),
     (seqs [WordB, lit ''apt'', Plus Space,
            Group 1 (alts [lit ''remove'', lit ''purge'', lit ''autoremove''])],
      ''This will remove packages''),
     (seqs [WordB, lit ''pip'', Plus Space, lit ''uninstall'', WordB],
      ''This will uninstall Python packages''),
     (seqs [WordB, lit ''npm'', Plus Space, lit ''uninstall'', WordB],
      ''This will uninstall npm packages''),
     (seqs [lit ''DELETE'', Plus Space, lit ''FROM''],
      ''This will delete database records''),
     (seqs [lit ''UPDATE'', Plus Space],
      ''This will modify database records''),
     (seqs [lit ''ALTER'', Plus Space, lit ''TABLE''],
      ''This will modify database schema'')
   ]"

text \<open>
  The redaction rules: pattern, whether the pattern carries the inline flag \<^verbatim>\<open>(?i)\<close>, and
  the replacement. The last rule's replacement is the source's lambda.
\<close>

definition hex_lower :: string where
  "hex_lower = ''abcdef0123456789''"

definition UUID_PATTERN :: regex where
  "UUID_PATTERN =
     seqs [Rep 8 (OneOf hex_lower), Chr CHR ''-'', Rep 4 (OneOf hex_lower), Chr CHR ''-'',
           Rep 4 (OneOf hex_lower), Chr CHR ''-'', Rep 4 (OneOf hex_lower), Chr CHR ''-'',
           Rep 12 (OneOf hex_lower)]"

definition uuid_replacement :: "string \<Rightarrow> string" where
  "uuid_replacement g = (if length g \<le> 36 then g else ''<UUID_REDACTED>'')"

definition REDACT_PATTERNS :: "(regex \<times> bool \<times> repl) list" where
  "REDACT_PATTERNS = [
     (seqs [Group 1 (alts [lit ''password'', lit ''passwd'', lit ''secret'', lit ''token'',
                           seqs [lit ''api'', Opt (OneOf ''_-''), lit ''key''], lit ''bearer'']),
            Star Space, OneOf ''=:'', Star Space, Plus NonSpace],
      True, Template [TGroup 1, TLit ''=<REDACTED>'']),
     (seqs [Group 1 (seqs [lit ''Authorization:'', Star Space, lit ''Bearer'', Plus Space]),
            Plus NonSpace],
      True, Template [TGroup 1, TLit ''<REDACTED>'']),
     (seqs [lit ''sk'', OneOf ''_-'', lit ''test'', OneOf ''_-'', Plus NonSpace],
      False, Template [TLit ''<STRIPE_KEY_REDACTED>'']),
     (seqs [lit ''sk'', OneOf ''_-'', lit ''live'', OneOf ''_-'', Plus NonSpace],
      False, Template [TLit ''<STRIPE_KEY_REDACTED>'']),
     (seqs [lit ''pk'', OneOf ''_-'', lit ''test'', OneOf ''_-'', Plus NonSpace],
      False, Template [TLit ''<STRIPE_KEY_REDACTED>'']),
     (seqs [lit ''whsec_'', Plus NonSpace],
      False, Template [TLit ''<WEBHOOK_SECRET_REDACTED>'']),
     (UUID_PATTERN, False, Callable uuid_replacement)
   ]"


definition ANSI_PATTERN :: regex where
  "ANSI_PATTERN =
     seqs [Chr esc, Chr CHR ''['', Star (OneOf (ascii_digits @ '';'')),
           OneOf (ascii_lower @ ascii_upper)]"

definition blocked_reason :: "string \<Rightarrow> string" where
  "blocked_reason pattern = ''Blocked: Command matches dangerous pattern ('' @ pattern @ '')''"

text \<open>
  \<open>validate_command\<close>: the loop over \<open>BLOCKED_PATTERNS\<close> returns at the first pattern
  found in the command; the reason is absent (\<open>None\<close>) when the command is allowed.
  The source also binds a local \<open>cmd_lower\<close> (the stripped, lower-cased command) that
  it never reads; the patterns are searched in the command as given, ignoring case.
\<close>

fun validate_loop :: "(string \<times> regex) list \<Rightarrow> string \<Rightarrow> bool \<times> string option" where
  "validate_loop [] command = (True, None)"
| "validate_loop ((pattern, r) # ps) command =
     (if re_search r True command then (False, Some (blocked_reason pattern))
      else validate_loop ps command)"

definition validate_command :: "string \<Rightarrow> bool \<times> string option" where
  "validate_command command = validate_loop BLOCKED_PATTERNS command"

fun confirmation_loop :: "(regex \<times> string) list \<Rightarrow> string \<Rightarrow> string option" where
  "confirmation_loop [] command = None"
| "confirmation_loop ((r, description) # ps) command =
     (if re_search r True command then Some description else confirmation_loop ps command)"

definition requires_confirmation :: "string \<Rightarrow> string option" where
  "requires_confirmation command = confirmation_loop CONFIRMATION_PATTERNS command"

definition redact_all :: "string \<Rightarrow> string" where
  "redact_all s = foldl (\<lambda>result (r, ic, rp). re_sub r ic rp result) s REDACT_PATTERNS"

definition truncation_notice :: "nat \<Rightarrow> string" where
  "truncation_notice n =
     [CHR 0x0A, CHR 0x0A] @ ''... (output truncated, '' @ str_nat n @ '' total chars)''"

definition sanitize_output :: "string \<Rightarrow> int \<Rightarrow> string" where
  "sanitize_output output max_length =
     (let result = re_sub ANSI_PATTERN False (Template []) output;
          result = redact_all result
      in if int (length result) > max_length
         then py_take max_length result @ truncation_notice (length output)
         else result)"

section \<open>Values, frames and sessions (\<^verbatim>\<open>colonel/models.py\<close>)\<close>

text \<open>
  JSON values as Python sees them after \<^verbatim>\<open>json.loads\<close> (numbers are the integers). A
  dictionary is an association list with distinct keys.
\<close>

datatype pyval =
    PNone
  | PBool bool
  | PInt int
  | PStr string
  | PList "pyval list"
  | PDict "(string \<times> pyval) list"

type_synonym params = "(string \<times> pyval) list"

fun truthy :: "pyval \<Rightarrow> bool" where
  "truthy PNone = False"
| "truthy (PBool b) = b"
| "truthy (PInt n) = (n \<noteq> 0)"
| "truthy (PStr s) = (s \<noteq> [])"
| "truthy (PList xs) = (xs \<noteq> [])"
| "truthy (PDict kv) = (kv \<noteq> [])"

fun type_name :: "pyval \<Rightarrow> string" where
  "type_name PNone = ''NoneType''"
| "type_name (PBool b) = ''bool''"
| "type_name (PInt n) = ''int''"
| "type_name (PStr s) = ''str''"
| "type_name (PList xs) = ''list''"
| "type_name (PDict kv) = ''dict''"

text \<open>
  A value used as a dictionary key: lists and dictionaries are unhashable, and \<^verbatim>\<open>True\<close>
  and \<^verbatim>\<open>False\<close> are the keys \<^verbatim>\<open>1\<close> and \<^verbatim>\<open>0\<close>.
\<close>

fun py_key :: "pyval \<Rightarrow> pyval option" where
  "py_key PNone = Some PNone"
| "py_key (PBool b) = Some (PInt (if b then 1 else 0))"
| "py_key (PInt n) = Some (PInt n)"
| "py_key (PStr s) = Some (PStr s)"
| "py_key (PList xs) = None"
| "py_key (PDict kv) = None"

definition dict_set :: "string \<Rightarrow> pyval \<Rightarrow> params \<Rightarrow> params" where
  "dict_set k v kvs =
     (if k \<in> fst ` set kvs then map (\<lambda>(k', v'). if k' = k then (k', v) else (k', v')) kvs
      else kvs @ [(k, v)])"

definition strip :: "string \<Rightarrow> string" where
  "strip s = rev (dropWhile is_space (rev (dropWhile is_space s)))"

text \<open>\<^verbatim>\<open>s.split(sep, 1)\<close>: the text before and after the first occurrence of \<open>sep\<close>.\<close>

fun find_sep :: "string \<Rightarrow> string \<Rightarrow> (string \<times> string) option" where
  "find_sep sep [] = (if sep = [] then Some ([], []) else None)"
| "find_sep sep (c # cs) =
     (if prefix sep (c # cs) then Some ([], drop (length sep) (c # cs))
      else map_option (\<lambda>(a, b). (c # a, b)) (find_sep sep cs))"

definition split1 :: "string \<Rightarrow> string \<Rightarrow> string list" where
  "split1 sep s = (case find_sep sep s of None \<Rightarrow> [s] | Some (a, b) \<Rightarrow> [a, b])"

text \<open>\<^verbatim>\<open>s.replace(old, '')\<close> for a non-empty \<open>old\<close> (with an empty \<open>old\<close> nothing changes).\<close>

fun remove_all :: "string \<Rightarrow> string \<Rightarrow> string" where
  "remove_all old [] = []"
| "remove_all old (c # cs) =
     (if old \<noteq> [] \<and> prefix old (c # cs) then remove_all old (drop (length old) (c # cs))
      else c # remove_all old cs)"

text \<open>
  The exceptions that leave a coroutine of the gateway. The frames carry no frame id,
  time stamp or message id: these are random or read from the clock. A confirmation
  frame keeps its id, which is the confirmation id the client answers with.
\<close>

datatype error =
    NameError string
  | TypeError
  | ValidationError
  | AttributeError
  | WebSocketDisconnect

datatype frame =
    WSChunkFrame string
  | WSMessageDoneFrame string
  | WSErrorFrame string
  | WSSkillStartFrame string string params
  | WSSkillResultFrame string string bool string "int option"
  | WSConfirmFrame string string string string params
  | WSPongFrame

fun is_message_done :: "frame \<Rightarrow> bool" where
  "is_message_done (WSMessageDoneFrame c) = True"
| "is_message_done f = False"

fun is_chunk :: "frame \<Rightarrow> bool" where
  "is_chunk (WSChunkFrame c) = True"
| "is_chunk f = False"

fun is_skill_result :: "frame \<Rightarrow> bool" where
  "is_skill_result (WSSkillResultFrame s a ok out d) = True"
| "is_skill_result f = False"

record tool_call =
  tc_id :: string
  tc_name :: string
  tc_arguments :: string

datatype role = User | Assistant | System | Tool

record chat_message =
  role :: role
  content :: string
  tool_call_id :: "string option"
  tool_calls :: "tool_call list option"
  name :: "string option"

definition ChatMessage :: "role \<Rightarrow> string \<Rightarrow> chat_message" where
  "ChatMessage r c = \<lparr>role = r, content = c, tool_call_id = None, tool_calls = None, name = None\<rparr>"

record session =
  sid :: string
  user_id :: string
  colonel_id :: string
  messages :: "chat_message list"
  title :: "string option"

section \<open>The world outside one coroutine\<close>

text \<open>
  \<open>effects\<close> is a log kept for the proofs: a request to the completion service, a
  call of an executor of the dispatch map, a process handed to the shell, a row written
  to the audit table. The connection is open
  or closed; sending on a closed connection raises.
\<close>

datatype effect =
    LlmCalled
  | Invoked string params
  | Spawned string
  | AuditLogged string string bool

record world =
  ws_open :: bool
  sent :: "frame list"
  pending_confirmations :: "pyval \<Rightarrow> bool option"
  confirmation_results :: "pyval \<Rightarrow> pyval option"
  effects :: "effect list"
  redis :: "string \<Rightarrow> session option"

fun is_llm_call :: "effect \<Rightarrow> bool" where
  "is_llm_call LlmCalled = True"
| "is_llm_call x = False"

fun is_invoked :: "effect \<Rightarrow> bool" where
  "is_invoked (Invoked f kw) = True"
| "is_invoked x = False"

fun is_spawned :: "effect \<Rightarrow> bool" where
  "is_spawned (Spawned c) = True"
| "is_spawned x = False"

definition send_json :: "frame \<Rightarrow> world \<Rightarrow> error + world" where
  "send_json f w = (if ws_open w then Inr (w\<lparr>sent := sent w @ [f]\<rparr>) else Inl WebSocketDisconnect)"

text \<open>\<^verbatim>\<open>try: await ws.send_json(...) except Exception: pass\<close>\<close>

definition try_send_json :: "frame \<Rightarrow> world \<Rightarrow> world" where
  "try_send_json f w = (case send_json f w of Inl e \<Rightarrow> w | Inr w' \<Rightarrow> w')"

definition save_session :: "session \<Rightarrow> world \<Rightarrow> world" where
  "save_session s w = w\<lparr>redis := (redis w)(sid s \<mapsto> s)\<rparr>"

text \<open>What the surroundings give to the completion stream and to the executors.\<close>

datatype exec_outcome = Returned string | Raised string

datatype shell_outcome = Completed string string | TimedOut | Failed string

record tc_delta =
  d_index :: "int option"
  d_id :: "string option"
  d_name :: "string option"
  d_arguments :: "string option"

datatype sse_event =
    SkipLine
  | DoneMarker
  | ErrorObject string
  | Delta "string option" "tc_delta list"

datatype stream_failure = ReadTimeout | OtherException string

datatype llm_response =
    NoResponse stream_failure
  | Response nat string "sse_event list" "stream_failure option"

text \<open>
  One call of \<open>execute\<close> reads: the fresh confirmation id (the first eight characters of
  a UUID), the calls of \<open>handle_confirmation\<close> that other coroutines make while this one
  waits (each with the time in milliseconds since the wait began), the measured
  duration, and whether the audit row could be written.
\<close>

record exec_in =
  confirm_id :: string
  arrivals :: "(nat \<times> pyval \<times> pyval) list"
  duration_ms :: int
  audit_ok :: bool

record env =
  json_loads :: "string \<Rightarrow> pyval option"
  py_str :: "pyval \<Rightarrow> string"
  llm :: "chat_message list \<Rightarrow> llm_response"
  executors :: "string \<Rightarrow> params \<Rightarrow> exec_outcome"
  shell :: "string \<Rightarrow> pyval \<Rightarrow> shell_outcome"
  exec_input :: "nat \<Rightarrow> exec_in"

section \<open>Skill executors (\<^verbatim>\<open>colonel/skill_executor.py\<close>)\<close>

text \<open>
  \<open>bash_execute\<close>: the command is validated first. What the process then does (its
  output, a timeout, an exception of the process machinery) is given by the
  surroundings; every path returns a string.
\<close>

definition bash_execute :: "env \<Rightarrow> pyval \<Rightarrow> pyval \<Rightarrow> world \<Rightarrow> exec_outcome \<times> world" where
  "bash_execute e command timeout w =
     (case command of
        PStr c \<Rightarrow>
          (case validate_command c of
             (False, reason) \<Rightarrow>
               (Returned (''Blocked: '' @ (case reason of Some r \<Rightarrow> r | None \<Rightarrow> ''None'')), w)
           | (True, reason) \<Rightarrow>
               (let w' = w\<lparr>effects := effects w @ [Spawned c]\<rparr>
                in case shell e c timeout of
                     TimedOut \<Rightarrow>
                       (Returned (''Command timed out after '' @ py_str e timeout @ ''s''), w')
                   | Failed msg \<Rightarrow> (Returned (''Error executing command: '' @ msg), w')
                   | Completed out err \<Rightarrow>
                       (let output = (if err \<noteq> [] \<and> strip err \<noteq> []
                                      then out @ [CHR 0x0A] @ ''[STDERR]'' @ [CHR 0x0A] @ err
                                      else out)
                        in (Returned (if strip output \<noteq> [] then sanitize_output output 8000
                                      else ''(no output)''), w'))))
      | v \<Rightarrow> (Raised ([CHR 0x27] @ type_name v @ [CHR 0x27] @ '' object has no attribute ''
                        @ [CHR 0x27] @ ''strip'' @ [CHR 0x27]), w))"

text \<open>
  The dispatch map. The shell executor is modelled; the other entries reach Docker, the
  operating system and the database, and what they return or raise is given by the
  surroundings.
\<close>

definition external_executors :: "string list" where
  "external_executors = [
     ''docker-management__list_containers'', ''docker-management__inspect_container'',
     ''docker-management__container_logs'', ''docker-management__container_stats'',
     ''docker-management__manage_container'',
     ''system-status__cpu'', ''system-status__memory'', ''system-status__disk'',
     ''system-status__gpu'', ''system-status__processes'', ''system-status__full_status'',
     ''service-health__check_all'', ''service-health__check_one'',
     ''log-viewer__get_logs'', ''log-viewer__search_logs'',
     ''postgresql-ops__list_databases'', ''postgresql-ops__list_tables'',
     ''postgresql-ops__query'', ''postgresql-ops__stats'',
     ''keycloak-auth__list_users'', ''keycloak-auth__list_realms'', ''keycloak-auth__user_info'',
     ''forgejo-management__list_repos'', ''forgejo-management__list_orgs'']"

definition run_command :: string where
  "run_command = ''bash-execution__run_command''"

definition EXECUTOR_MAP ::
  "env \<Rightarrow> string \<Rightarrow> (params \<Rightarrow> world \<Rightarrow> exec_outcome \<times> world) option" where
  "EXECUTOR_MAP e func_name =
     (if func_name = run_command
      then Some (\<lambda>kw w. case map_of kw ''command'' of
                           None \<Rightarrow> (Raised ([CHR 0x27] @ ''command'' @ [CHR 0x27]), w)
                         | Some c \<Rightarrow>
                             bash_execute e c
                               (case map_of kw ''timeout'' of None \<Rightarrow> PInt 30 | Some t \<Rightarrow> t) w)
      else if func_name \<in> set external_executors
      then Some (\<lambda>kw w. (executors e func_name kw, w))
      else None)"

section \<open>Skill router (\<^verbatim>\<open>colonel/skill_router.py\<close>, \<^verbatim>\<open>colonel/skill_loader.py\<close>)\<close>

record action =
  a_name :: string
  a_description :: string
  a_confirmation_required :: bool

record skill =
  s_name :: string
  s_description :: string
  s_actions :: "action list"

type_synonym skills = "(string \<times> skill) list"

definition get_confirmation_required :: "skills \<Rightarrow> string \<Rightarrow> bool" where
  "get_confirmation_required sk func_name =
     (case split1 ''__'' func_name of
        [skill_name, action_name] \<Rightarrow>
          (case map_of sk skill_name of
             None \<Rightarrow> False
           | Some s \<Rightarrow>
               (case find (\<lambda>a. a_name a = action_name) (s_actions s) of
                  None \<Rightarrow> False
                | Some a \<Rightarrow> a_confirmation_required a))
      | _ \<Rightarrow> False)"

definition skill_and_action :: "string \<Rightarrow> string \<times> string" where
  "skill_and_action func_name =
     (let parts = split1 ''__'' func_name
      in ((case parts of [] \<Rightarrow> func_name | p # ps \<Rightarrow> p),
          (case parts of p # a # ps \<Rightarrow> a | _ \<Rightarrow> func_name)))"

text \<open>
  \<open>handle_confirmation\<close>: the value is stored first, then the event of a pending
  confirmation is set. An unhashable id raises at the store.
\<close>

definition handle_confirmation :: "pyval \<Rightarrow> pyval \<Rightarrow> world \<Rightarrow> error + world" where
  "handle_confirmation cid confirmed w =
     (case py_key cid of
        None \<Rightarrow> Inl TypeError
      | Some k \<Rightarrow>
          (let w1 = w\<lparr>confirmation_results := (confirmation_results w)(k \<mapsto> confirmed)\<rparr>
           in case pending_confirmations w1 k of
                None \<Rightarrow> Inr w1
              | Some ev \<Rightarrow> Inr (w1\<lparr>pending_confirmations := (pending_confirmations w1)(k \<mapsto> True)\<rparr>)))"

text \<open>
  \<^verbatim>\<open>await asyncio.wait_for(event.wait(), timeout=60.0)\<close>: the calls of the other
  coroutines run in their order; the wait ends when one of them sets the event, and with
  \<^verbatim>\<open>TimeoutError\<close> when the time is up first. A call that raises changes nothing.
\<close>

definition CONFIRM_TIMEOUT_MS :: nat where
  "CONFIRM_TIMEOUT_MS = 60000"

fun wait_for_event :: "nat \<Rightarrow> pyval \<Rightarrow> (nat \<times> pyval \<times> pyval) list \<Rightarrow> world \<Rightarrow> bool \<times> world" where
  "wait_for_event tmo k [] w = (False, w)"
| "wait_for_event tmo k ((t, cid, confirmed) # calls) w =
     (if tmo \<le> t then (False, w)
      else (let w' = (case handle_confirmation cid confirmed w of Inl e \<Rightarrow> w | Inr w1 \<Rightarrow> w1)
            in if pending_confirmations w' k = Some True then (True, w')
               else wait_for_event tmo k calls w'))"

definition forget_confirmation :: "string \<Rightarrow> world \<Rightarrow> world" where
  "forget_confirmation cid w =
     w\<lparr>pending_confirmations := (pending_confirmations w)(PStr cid := None),
       confirmation_results := (confirmation_results w)(PStr cid := None)\<rparr>"

text \<open>
  The confirmation flow of \<open>execute\<close>: the result says whether the action was confirmed.
  The \<^verbatim>\<open>finally\<close> block runs on every path, also when the frame of the timeout cannot
  be sent.
\<close>

definition confirm_question :: "string \<Rightarrow> string \<Rightarrow> string option \<Rightarrow> string" where
  "confirm_question skill_name action_name confirm_reason =
     (case confirm_reason of
        None \<Rightarrow> ''Execute '' @ action_name @ '' on '' @ skill_name @ ''?''
      | Some r \<Rightarrow> if r = [] then ''Execute '' @ action_name @ '' on '' @ skill_name @ ''?'' else r)"

definition confirmation_flow ::
  "exec_in \<Rightarrow> string \<Rightarrow> string \<Rightarrow> string option \<Rightarrow> params \<Rightarrow> world \<Rightarrow> (error + bool) \<times> world" where
  "confirmation_flow xin skill_name action_name confirm_reason ps w =
     (let cid = confirm_id xin;
          reason = confirm_question skill_name action_name confirm_reason
      in case send_json (WSConfirmFrame cid skill_name action_name reason ps) w of
           Inl e \<Rightarrow> (Inl e, w)
         | Inr w1 \<Rightarrow>
             (let w2 = w1\<lparr>pending_confirmations := (pending_confirmations w1)(PStr cid \<mapsto> False)\<rparr>
              in case wait_for_event CONFIRM_TIMEOUT_MS (PStr cid) (arrivals xin) w2 of
                   (True, w3) \<Rightarrow>
                     (let confirmed = (case confirmation_results w3 (PStr cid) of
                                         None \<Rightarrow> PBool False | Some v \<Rightarrow> v)
                      in (Inr (truthy confirmed), forget_confirmation cid w3))
                 | (False, w3) \<Rightarrow>
                     (case send_json (WSSkillResultFrame skill_name action_name False
                                        ''Confirmation timed out (60s)'' None) w3 of
                        Inl e \<Rightarrow> (Inl e, forget_confirmation cid w3)
                      | Inr w4 \<Rightarrow> (Inr False, forget_confirmation cid w4))))"

definition run_skill ::
  "env \<Rightarrow> exec_in \<Rightarrow> string \<Rightarrow> string \<Rightarrow> string \<Rightarrow> params \<Rightarrow> bool \<Rightarrow> world \<Rightarrow> string \<times> world" where
  "run_skill e xin func_name skill_name action_name ps write_enabled w =
     (let w1 = try_send_json (WSSkillStartFrame skill_name action_name ps) w;
          exec_params = (if write_enabled then dict_set ''_write_enabled'' (PBool True) ps else ps);
          (result, success, w2) =
            (case EXECUTOR_MAP e func_name of
               None \<Rightarrow> (''Unknown skill action: '' @ func_name, False, w1)
             | Some executor \<Rightarrow>
                 (case executor exec_params
                         (w1\<lparr>effects := effects w1 @ [Invoked func_name exec_params]\<rparr>) of
                    (Returned r, w') \<Rightarrow> (r, True, w')
                  | (Raised msg, w') \<Rightarrow> (''Skill execution error: '' @ msg, False, w')));
          w3 = try_send_json (WSSkillResultFrame skill_name action_name success (take 500 result)
                                (Some (duration_ms xin))) w2;
          w4 = (if audit_ok xin
                then w3\<lparr>effects := effects w3 @ [AuditLogged skill_name action_name success]\<rparr>
                else w3)
      in (result, w4))"

text \<open>
  \<^verbatim>\<open>"command" in params\<close> for parameters that are not a dictionary: \<open>None\<close> is
  \<^verbatim>\<open>TypeError\<close>.
\<close>

fun contains_command :: "pyval \<Rightarrow> bool option" where
  "contains_command (PList xs) = Some (PStr ''command'' \<in> set xs)"
| "contains_command (PStr s) = Some (sublist ''command'' s)"
| "contains_command (PDict kv) = Some (''command'' \<in> fst ` set kv)"
| "contains_command v = None"

text \<open>
  The need for a confirmation: the flag of the skill definition, or a risky shell command.
  The result carries the reason found by \<open>requires_confirmation\<close>; a command that is
  not a string raises in \<^verbatim>\<open>re.search\<close>.
\<close>

definition confirmation_need :: "skills \<Rightarrow> string \<Rightarrow> params \<Rightarrow> error + bool \<times> string option" where
  "confirmation_need sk func_name ps =
     (case (if func_name = run_command
            then (case map_of ps ''command'' of
                    None \<Rightarrow> Inr None
                  | Some (PStr c) \<Rightarrow> Inr (requires_confirmation c)
                  | Some v \<Rightarrow> Inl TypeError)
            else Inr None) of
        Inl err \<Rightarrow> Inl err
      | Inr confirm_reason \<Rightarrow>
          Inr (get_confirmation_required sk func_name
                 \<or> (case confirm_reason of None \<Rightarrow> False | Some r \<Rightarrow> r \<noteq> []),
               confirm_reason))"

text \<open>
  \<open>execute\<close>. With parameters that are not a dictionary every path raises: the
  subscript \<^verbatim>\<open>params["command"]\<close>, the validation of the confirmation frame, or
  \<^verbatim>\<open>{**params}\<close>; the start frame is not sent, its validation error being swallowed.
\<close>

definition execute ::
  "env \<Rightarrow> skills \<Rightarrow> exec_in \<Rightarrow> string \<Rightarrow> pyval \<Rightarrow> bool \<Rightarrow> world \<Rightarrow> (error + string) \<times> world" where
  "execute e sk xin func_name args write_enabled w =
     (let (skill_name, action_name) = skill_and_action func_name
      in case args of
           PDict ps \<Rightarrow>
             (case confirmation_need sk func_name ps of
                Inl err \<Rightarrow> (Inl err, w)
              | Inr (needs_confirm, confirm_reason) \<Rightarrow>
                  (case (if needs_confirm
                         then confirmation_flow xin skill_name action_name confirm_reason ps w
                         else (Inr True, w)) of
                     (Inl err, w1) \<Rightarrow> (Inl err, w1)
                   | (Inr False, w1) \<Rightarrow> (Inr ''Action cancelled by user.'', w1)
                   | (Inr True, w1) \<Rightarrow>
                       (case run_skill e xin func_name skill_name action_name ps write_enabled w1 of
                          (result, w2) \<Rightarrow> (Inr result, w2))))
         | v \<Rightarrow>
             (if func_name = run_command \<and> contains_command v \<noteq> Some False then (Inl TypeError, w)
              else if get_confirmation_required sk func_name then (Inl ValidationError, w)
              else (Inl TypeError, w)))"

section \<open>Streaming gateway (\<^verbatim>\<open>colonel/websocket_gateway.py\<close>)\<close>

subsection \<open>\<open>_call_llm_stream\<close>\<close>

text \<open>
  The tool calls under construction, keyed by the index the provider gives them; a
  fragment creates its entry when the index is new and then adds its id, name and
  argument text to it.
\<close>

definition apply_tc_delta :: "(int \<times> tool_call) list \<Rightarrow> tc_delta \<Rightarrow> (int \<times> tool_call) list" where
  "apply_tc_delta current d =
     (let idx = (case d_index d of None \<Rightarrow> 0 | Some i \<Rightarrow> i);
          current1 = (if idx \<in> fst ` set current then current
                      else current @ [(idx, \<lparr>tc_id = (case d_id d of None \<Rightarrow> [] | Some i \<Rightarrow> i),
                                               tc_name = [], tc_arguments = []\<rparr>)]);
          upd = (\<lambda>tc. tc\<lparr>tc_id := (case d_id d of None \<Rightarrow> tc_id tc
                                         | Some i \<Rightarrow> if i = [] then tc_id tc else i),
                          tc_name := tc_name tc @ (case d_name d of None \<Rightarrow> [] | Some n \<Rightarrow> n),
                          tc_arguments :=
                            tc_arguments tc @ (case d_arguments d of None \<Rightarrow> [] | Some a \<Rightarrow> a)\<rparr>)
      in map (\<lambda>(k, tc). if k = idx then (k, upd tc) else (k, tc)) current1)"

definition finish_stream ::
  "string \<Rightarrow> (int \<times> tool_call) list \<Rightarrow> string \<times> tool_call list option" where
  "finish_stream full_content current =
     (let tcs = map snd (sort_key fst current)
      in (full_content, if tcs = [] then None else Some tcs))"

text \<open>
  An error frame sent from inside the \<^verbatim>\<open>try\<close>: when the send itself raises, the handler
  \<^verbatim>\<open>except Exception\<close> tries to send once more and that exception leaves the function.
\<close>

definition error_and_return ::
  "string \<Rightarrow> string \<Rightarrow> world \<Rightarrow> (error + string \<times> tool_call list option) \<times> world" where
  "error_and_return detail full_content w =
     (case send_json (WSErrorFrame detail) w of
        Inl err \<Rightarrow> (Inl err, w)
      | Inr w' \<Rightarrow> (Inr (full_content, None), w'))"

fun consume_events ::
  "sse_event list \<Rightarrow> stream_failure option \<Rightarrow> string \<Rightarrow> (int \<times> tool_call) list \<Rightarrow> world
     \<Rightarrow> (error + string \<times> tool_call list option) \<times> world" where
  "consume_events [] None full_content current w = (Inr (finish_stream full_content current), w)"
| "consume_events [] (Some ReadTimeout) full_content current w =
     error_and_return ''LLM response timed out'' full_content w"
| "consume_events [] (Some (OtherException msg)) full_content current w =
     error_and_return (''LLM error: '' @ msg) full_content w"
| "consume_events (SkipLine # evs) fl full_content current w =
     consume_events evs fl full_content current w"
| "consume_events (DoneMarker # evs) fl full_content current w =
     (Inr (finish_stream full_content current), w)"
| "consume_events (ErrorObject msg # evs) fl full_content current w =
     error_and_return (''LLM error: '' @ msg) full_content w"
| "consume_events (Delta c tds # evs) fl full_content current w =
     (case (case c of
              None \<Rightarrow> Inr (full_content, w)
            | Some txt \<Rightarrow>
                if txt = [] then Inr (full_content, w)
                else (case send_json (WSChunkFrame txt) w of
                        Inl err \<Rightarrow> Inl err
                      | Inr w' \<Rightarrow> Inr (full_content @ txt, w'))) of
        Inl err \<Rightarrow> (Inl err, w)
      | Inr (full_content', w') \<Rightarrow>
          consume_events evs fl full_content' (foldl apply_tc_delta current tds) w')"

definition call_llm_stream ::
  "env \<Rightarrow> chat_message list \<Rightarrow> world \<Rightarrow> (error + string \<times> tool_call list option) \<times> world" where
  "call_llm_stream e msgs w0 =
     (let w = w0\<lparr>effects := effects w0 @ [LlmCalled]\<rparr>
      in case llm e msgs of
           NoResponse ReadTimeout \<Rightarrow> error_and_return ''LLM response timed out'' [] w
         | NoResponse (OtherException msg) \<Rightarrow> error_and_return (''LLM error: '' @ msg) [] w
         | Response status body evs fl \<Rightarrow>
             if status \<noteq> 200
             then error_and_return (''LLM returned '' @ str_nat status @ '': '' @ take 200 body) [] w
             else consume_events evs fl [] [] w)"

subsection \<open>\<open>_stream_response\<close>\<close>

text \<open>The id remap table of one turn and \<open>_normalize_tc_id\<close>.\<close>

definition normalize_tc_id :: "string \<Rightarrow> (string \<times> string) list \<Rightarrow> string \<times> (string \<times> string) list" where
  "normalize_tc_id raw_id remap =
     (if raw_id = [] then (raw_id, remap)
      else if prefix ''call_'' raw_id then (raw_id, remap)
      else (let new_id = ''call_'' @ remove_all ''toolu_'' (remove_all ''toolu_vrtx_'' raw_id)
            in (new_id, (raw_id, new_id) # remap)))"

definition remap_get :: "(string \<times> string) list \<Rightarrow> string \<Rightarrow> string" where
  "remap_get remap k = (case map_of remap k of None \<Rightarrow> k | Some v \<Rightarrow> v)"

fun normalize_tool_calls ::
  "tool_call list \<Rightarrow> (string \<times> string) list \<Rightarrow> tool_call list \<times> (string \<times> string) list" where
  "normalize_tool_calls [] remap = ([], remap)"
| "normalize_tool_calls (tc # tcs) remap =
     (case normalize_tc_id (tc_id tc) remap of
        (new_id, remap1) \<Rightarrow>
          (case normalize_tool_calls tcs remap1 of
             (tcs', remap2) \<Rightarrow> (tc\<lparr>tc_id := new_id\<rparr> # tcs', remap2)))"

text \<open>The replay of the last twenty messages of the session.\<close>

definition history_message ::
  "chat_message \<Rightarrow> (string \<times> string) list \<Rightarrow> chat_message \<times> (string \<times> string) list" where
  "history_message m remap =
     (let tcid = (case tool_call_id m of None \<Rightarrow> None
                  | Some i \<Rightarrow> if i = [] then None else Some (remap_get remap i));
          (tcs, remap') = (case tool_calls m of
                             None \<Rightarrow> (None, remap)
                           | Some l \<Rightarrow>
                               if l = [] then (None, remap)
                               else (case normalize_tool_calls l remap of
                                       (l', r') \<Rightarrow> (Some l', r')));
          nm = (case name m of None \<Rightarrow> None | Some n \<Rightarrow> if n = [] then None else Some n)
      in (\<lparr>role = role m, content = content m, tool_call_id = tcid, tool_calls = tcs, name = nm\<rparr>,
          remap'))"

fun history ::
  "chat_message list \<Rightarrow> (string \<times> string) list \<Rightarrow> chat_message list \<times> (string \<times> string) list" where
  "history [] remap = ([], remap)"
| "history (m # ms) remap =
     (case history_message m remap of
        (d, remap1) \<Rightarrow> (case history ms remap1 of (ds, remap2) \<Rightarrow> (d # ds, remap2)))"

definition last_n :: "nat \<Rightarrow> 'a list \<Rightarrow> 'a list" where
  "last_n n xs = drop (length xs - n) xs"

text \<open>The state of one turn.\<close>

record turn =
  t_session :: session
  t_llm_messages :: "chat_message list"
  t_id_remap :: "(string \<times> string) list"
  t_parts :: "string list"
  t_done_sent :: bool
  t_calls :: nat

definition append_message :: "chat_message \<Rightarrow> turn \<Rightarrow> turn" where
  "append_message m t = t\<lparr>t_session := (t_session t)\<lparr>messages := messages (t_session t) @ [m]\<rparr>\<rparr>"

text \<open>
  The filter of the tool calls: a call without a name is skipped, and so is a call whose
  argument text is not JSON; blank argument text stands for no arguments.
\<close>

fun valid_tool_calls :: "env \<Rightarrow> tool_call list \<Rightarrow> (tool_call \<times> string \<times> pyval) list" where
  "valid_tool_calls e [] = []"
| "valid_tool_calls e (tc # tcs) =
     (if tc_name tc = [] then valid_tool_calls e tcs
      else if strip (tc_arguments tc) \<noteq> []
      then (case json_loads e (tc_arguments tc) of
              None \<Rightarrow> valid_tool_calls e tcs
            | Some parsed \<Rightarrow> (tc, tc_name tc, parsed) # valid_tool_calls e tcs)
      else (tc, tc_name tc, PDict []) # valid_tool_calls e tcs)"

text \<open>The loop over the valid tool calls: execute, then record the result twice.\<close>

fun run_tool_calls ::
  "env \<Rightarrow> skills \<Rightarrow> bool \<Rightarrow> (tool_call \<times> string \<times> pyval) list \<Rightarrow> turn \<Rightarrow> world
     \<Rightarrow> error option \<times> turn \<times> world" where
  "run_tool_calls e sk write_enabled [] t w = (None, t, w)"
| "run_tool_calls e sk write_enabled ((tc, func_name, func_args) # rest_calls) t w =
     (let the_id = remap_get (t_id_remap t) (tc_id tc)
      in case execute e sk (exec_input e (t_calls t)) func_name func_args write_enabled w of
           (Inl err, w1) \<Rightarrow> (Some err, t\<lparr>t_calls := Suc (t_calls t)\<rparr>, w1)
         | (Inr result, w1) \<Rightarrow>
             (let tool_msg = \<lparr>role = Tool,
                              content = (if result = [] then ''(no output)'' else result),
                              tool_call_id = Some the_id, tool_calls = None,
                              name = Some func_name\<rparr>;
                  t1 = t\<lparr>t_llm_messages := t_llm_messages t @ [tool_msg],
                         t_calls := Suc (t_calls t)\<rparr>;
                  t2 = append_message \<lparr>role = Tool, content = result, tool_call_id = Some the_id,
                                        tool_calls = None, name = Some func_name\<rparr> t1
              in run_tool_calls e sk write_enabled rest_calls t2 w1))"

declare run_tool_calls.simps [simp del]

definition max_tool_rounds :: nat where
  "max_tool_rounds = 5"

text \<open>
  The round loop \<^verbatim>\<open>for round_num in range(max_tool_rounds + 1)\<close>; the first argument is
  the number of iterations left. The result is the state at the \<^verbatim>\<open>break\<close> or at the end
  of the range, or the exception that left the loop. The router is absent (\<open>None\<close>) when
  its construction failed.
\<close>

fun round_loop ::
  "nat \<Rightarrow> env \<Rightarrow> skills option \<Rightarrow> bool \<Rightarrow> turn \<Rightarrow> world \<Rightarrow> error option \<times> turn \<times> world" where
  "round_loop 0 e router write_enabled t w = (None, t, w)"
| "round_loop (Suc n) e router write_enabled t w =
     (case call_llm_stream e (t_llm_messages t) w of
        (Inl err, w1) \<Rightarrow> (Some err, t, w1)
      | (Inr (assistant_content, tcs), w1) \<Rightarrow>
          (let t1 = (if assistant_content \<noteq> [] then t\<lparr>t_parts := t_parts t @ [assistant_content]\<rparr>
                     else t)
           in case tcs of
                None \<Rightarrow>
                  (if assistant_content \<noteq> []
                   then (let t2 = append_message (ChatMessage Assistant assistant_content) t1
                         in case send_json (WSMessageDoneFrame assistant_content) w1 of
                              Inl err \<Rightarrow> (Some err, t2, w1)
                            | Inr w2 \<Rightarrow>
                                (None, t2\<lparr>t_done_sent := True\<rparr>, save_session (t_session t2) w2))
                   else (None, t1, save_session (t_session t1) w1))
              | Some tcalls \<Rightarrow>
                  (case router of
                     None \<Rightarrow>
                       (let t2 = append_message
                                   (ChatMessage Assistant
                                      (if assistant_content \<noteq> [] then assistant_content
                                       else ''(Tool calling not yet available)'')) t1
                        in (None, t2, save_session (t_session t2) w1))
                   | Some sk \<Rightarrow>
                       (let valid = valid_tool_calls e tcalls
                        in if valid = []
                           then (if assistant_content \<noteq> []
                                 then (let t2 = append_message
                                                  (ChatMessage Assistant assistant_content) t1
                                       in case send_json (WSMessageDoneFrame assistant_content) w1 of
                                            Inl err \<Rightarrow> (Some err, t2, w1)
                                          | Inr w2 \<Rightarrow> (None, t2, save_session (t_session t2) w2))
                                 else (None, t1, save_session (t_session t1) w1))
                           else (case normalize_tool_calls tcalls (t_id_remap t1) of
                                   (normalized, remap') \<Rightarrow>
                                     (let assistant_msg = \<lparr>role = Assistant,
                                                           content = assistant_content,
                                                           tool_call_id = None,
                                                           tool_calls = Some normalized,
                                                           name = None\<rparr>;
                                          t2 = append_message assistant_msg
                                                 (t1\<lparr>t_id_remap := remap',
                                                      t_llm_messages :=
                                                        t_llm_messages t1 @ [assistant_msg]\<rparr>)
                                      in case run_tool_calls e sk write_enabled valid t2 w1 of
                                           (Some err, t3, w2) \<Rightarrow> (Some err, t3, w2)
                                         | (None, t3, w2) \<Rightarrow>
                                             round_loop n e router write_enabled t3
                                               (save_session (t_session t3) w2)))))))"

declare round_loop.simps [simp del]

definition join_parts :: "string list \<Rightarrow> string" where
  "join_parts ps = (case ps of [] \<Rightarrow> []
                    | p # qs \<Rightarrow> p @ concat (map (\<lambda>q. [CHR 0x0A, CHR 0x0A] @ q) qs))"

text \<open>The safety net after the loop.\<close>

definition safety_net :: "turn \<Rightarrow> world \<Rightarrow> error option \<times> turn \<times> world" where
  "safety_net t w =
     (if t_done_sent t then (None, t, w)
      else (let final_content = join_parts (t_parts t)
            in if final_content \<noteq> []
               then (let ms = messages (t_session t);
                         t1 = (if ms = [] \<or> content (last ms) \<noteq> final_content
                               then append_message (ChatMessage Assistant final_content) t else t)
                     in case send_json (WSMessageDoneFrame final_content) w of
                          Inl err \<Rightarrow> (Some err, t1, w)
                        | Inr w1 \<Rightarrow> (None, t1, save_session (t_session t1) w1))
               else (case send_json (WSMessageDoneFrame ''(No response generated)'') w of
                       Inl err \<Rightarrow> (Some err, t, w)
                     | Inr w1 \<Rightarrow> (None, t, save_session (t_session t) w1))))"

text \<open>
  \<open>_stream_response\<close>. The system prompt is built by the surroundings (configuration,
  recalled memories, graph context, skill descriptions) and is a parameter; the memory
  store after a final answer is outside the state kept here and its failure is swallowed.
\<close>

definition stream_response ::
  "env \<Rightarrow> skills option \<Rightarrow> string \<Rightarrow> bool \<Rightarrow> session \<Rightarrow> world \<Rightarrow> error option \<times> session \<times> world" where
  "stream_response e router system_prompt write_enabled s w =
     (case history (last_n 20 (messages s)) [] of
        (hist, remap) \<Rightarrow>
          (let t0 = \<lparr>t_session = s,
                     t_llm_messages = ChatMessage System system_prompt # hist,
                     t_id_remap = remap, t_parts = [], t_done_sent = False, t_calls = 0\<rparr>
           in case round_loop (max_tool_rounds + 1) e router write_enabled t0 w of
                (Some err, t, w1) \<Rightarrow> (Some err, t_session t, w1)
              | (None, t, w1) \<Rightarrow>
                  (case safety_net t w1 of (r, t', w2) \<Rightarrow> (r, t_session t', w2))))"

subsection \<open>\<open>_message_loop\<close>\<close>

definition dict_get :: "params \<Rightarrow> string \<Rightarrow> pyval \<Rightarrow> pyval" where
  "dict_get d k dflt = (case map_of d k of None \<Rightarrow> dflt | Some v \<Rightarrow> v)"

definition auto_title :: "string \<Rightarrow> string" where
  "auto_title c = take 60 c @ (if length c > 60 then ''...'' else [])"

text \<open>
  The receive loop over the texts that arrive; \<^verbatim>\<open>receive_text\<close> raises
  \<^verbatim>\<open>WebSocketDisconnect\<close> when the client is gone, so the loop always ends with an
  exception, which \<open>handle_websocket\<close> catches.

  In the branch of a chat message the call
  \<^verbatim>\<open>self._stream_response(ws, session, config, user, write_enabled)\<close> names
  \<^verbatim>\<open>write_enabled\<close>, which is a local variable of \<open>handle_websocket\<close> and is neither a
  parameter nor a local variable of \<open>_message_loop\<close>, nor a name of the module: evaluating
  the arguments raises \<^verbatim>\<open>NameError\<close> and \<open>_stream_response\<close> is not entered.
\<close>

fun message_loop ::
  "env \<Rightarrow> skills option \<Rightarrow> string list \<Rightarrow> session \<Rightarrow> world \<Rightarrow> error \<times> session \<times> world" where
  "message_loop e router [] s w = (WebSocketDisconnect, s, w)"
| "message_loop e router (raw # inbound) s w =
     (case json_loads e raw of
        None \<Rightarrow>
          (case send_json (WSErrorFrame ''Invalid JSON'') w of
             Inl err \<Rightarrow> (err, s, w)
           | Inr w1 \<Rightarrow> message_loop e router inbound s w1)
      | Some (PDict msg) \<Rightarrow>
          (let msg_type = dict_get msg ''type'' (PStr ''message'')
           in if msg_type = PStr ''ping''
              then (case send_json WSPongFrame w of
                      Inl err \<Rightarrow> (err, s, w)
                    | Inr w1 \<Rightarrow> message_loop e router inbound s w1)
              else if msg_type = PStr ''confirm''
              then (case router of
                      None \<Rightarrow> message_loop e router inbound s w
                    | Some sk \<Rightarrow>
                        (case handle_confirmation (dict_get msg ''confirm_id'' PNone)
                                (dict_get msg ''confirmed'' (PBool False)) w of
                           Inl err \<Rightarrow> (err, s, w)
                         | Inr w1 \<Rightarrow> message_loop e router inbound s w1))
              else if msg_type = PStr ''message'' \<or> msg_type = PStr ''chat''
              then (case dict_get msg ''content'' (PStr []) of
                      PStr c \<Rightarrow>
                        (let body = strip c
                         in if body = [] then message_loop e router inbound s w
                            else (let s1 = s\<lparr>messages := messages s @ [ChatMessage User body]\<rparr>;
                                      s2 = (if length (messages s1) = 1
                                            then s1\<lparr>title := Some (auto_title body)\<rparr> else s1)
                                  in (NameError ''write_enabled'', s2, save_session s2 w)))
                    | v \<Rightarrow> (AttributeError, s, w))
              else message_loop e router inbound s w)
      | Some v \<Rightarrow> (AttributeError, s, w))"

subsection \<open>What the statements observe\<close>

text \<open>
  The completion frames a connection has received, and the number of requests made to
  the completion service: one request is one round of the loop.
\<close>

definition done_frames :: "world \<Rightarrow> frame list" where
  "done_frames w = filter is_message_done (sent w)"

definition llm_calls :: "world \<Rightarrow> nat" where
  "llm_calls w = length (filter is_llm_call (effects w))"

text \<open>
  A batch of tool calls that \<open>execute\<close> can run: the arguments are a dictionary, and a
  shell command, when present, is a string. A completion service that always returns a
  new tool call: on an open connection every request ends with at least one valid tool
  call, all of them of that form.
\<close>

definition well_formed_calls :: "skills \<Rightarrow> (tool_call \<times> string \<times> pyval) list \<Rightarrow> bool" where
  "well_formed_calls sk calls =
     list_all (\<lambda>(tc, f, a). case a of
                                PDict ps \<Rightarrow> (case confirmation_need sk f ps of
                                               Inl err \<Rightarrow> False | Inr x \<Rightarrow> True)
                              | _ \<Rightarrow> False) calls"

definition always_tool_calls :: "env \<Rightarrow> skills \<Rightarrow> bool" where
  "always_tool_calls e sk =
     (\<forall>msgs w. ws_open w \<longrightarrow>
        (\<exists>c tcs w1. call_llm_stream e msgs w = (Inr (c, Some tcs), w1)
           \<and> valid_tool_calls e tcs \<noteq> []
           \<and> well_formed_calls sk (valid_tool_calls e tcs)))"

section \<open>Concrete surroundings for the examples\<close>

definition w0 :: world where
  "w0 = \<lparr>ws_open = True, sent = [], pending_confirmations = Map.empty,
          confirmation_results = Map.empty, effects = [], redis = Map.empty\<rparr>"

definition s0 :: session where
  "s0 = \<lparr>sid = ''s1'', user_id = ''u1'', colonel_id = ''default'', messages = [], title = None\<rparr>"

definition xin0 :: exec_in where
  "xin0 = \<lparr>confirm_id = ''abcd1234'', arrivals = [], duration_ms = 7, audit_ok = True\<rparr>"


text \<open>
  A completion service that streams the plain text \<^verbatim>\<open>no tools\<close>; a JSON decoder that
  knows the texts used in the examples.
\<close>

definition example_loads :: "string \<Rightarrow> pyval option" where
  "example_loads raw =
     (if raw = ''{}'' then Some (PDict [])
      else if raw = ''chat'' then
        Some (PDict [(''type'', PStr ''message''), (''content'', PStr ''list containers'')])
      else if raw = ''subscribe'' then Some (PDict [(''type'', PStr ''subscribe'')])
      else None)"

definition env0 :: env where
  "env0 = \<lparr>json_loads = example_loads, py_str = (\<lambda>v. []),
            llm = (\<lambda>ms. Response 200 [] [Delta (Some ''no tools'') [], DoneMarker] None),
            executors = (\<lambda>n kw. Returned ''ok''), shell = (\<lambda>c t. Completed ''out'' []),
            exec_input = (\<lambda>n. xin0)\<rparr>"

text \<open>A tool call whose argument text is not JSON, and one without arguments.\<close>

definition tc_malformed :: tc_delta where
  "tc_malformed = \<lparr>d_index = Some 0, d_id = Some ''toolu_1'',
                    d_name = Some ''system-status__cpu'', d_arguments = Some ''{''\<rparr>"

definition tc_cpu :: tc_delta where
  "tc_cpu = \<lparr>d_index = Some 0, d_id = Some ''toolu_1'',
              d_name = Some ''system-status__cpu'', d_arguments = Some ''{}''\<rparr>"

definition env_malformed :: env where
  "env_malformed =
     env0\<lparr>llm := (\<lambda>ms. Response 200 [] [Delta (Some ''hi'') [tc_malformed], DoneMarker] None)\<rparr>"

definition env_always_tool :: env where
  "env_always_tool =
     env0\<lparr>llm := (\<lambda>ms. Response 200 [] [Delta None [tc_cpu], DoneMarker] None)\<rparr>"

definition s_asked :: session where
  "s_asked = s0\<lparr>messages := [ChatMessage User ''list containers'']\<rparr>"



section \<open>Properties of the safety validator\<close>


lemma validate_rm_rf_root:
  "validate_command ''rm -rf /'' = (False, Some (blocked_reason (fst (BLOCKED_PATTERNS ! 0))))"
  by code_simp




subsection \<open>The matcher reads a prefix of the text\<close>








subsection \<open>Substitution\<close>







lemma re_sub_from_no_match:
  "\<not> re_search_from r ic p s \<Longrightarrow> re_sub_from r ic rp p s = s"
proof (induction r ic p s rule: re_search_from.induct)
  case (1 r ic p)
  then show ?case by (subst re_sub_from.simps) simp
next
  case (2 r ic p c cs)
  then show ?case by (subst re_sub_from.simps) simp
qed





subsection \<open>\<open>sanitize_output\<close>\<close>








lemma ansi_strip_clean:
  "\<not> re_search ANSI_PATTERN False s \<Longrightarrow> re_sub ANSI_PATTERN False (Template []) s = s"
  unfolding re_sub_def re_search_def by (rule re_sub_from_no_match)









section \<open>Properties of the skill router\<close>

subsection \<open>Sending, and the calls of \<open>handle_confirmation\<close> during a wait\<close>

lemma send_json_open: "ws_open w \<Longrightarrow> send_json f w = Inr (w\<lparr>sent := sent w @ [f]\<rparr>)"
  by (simp add: send_json_def)

lemma handle_confirmation_frame:
  "handle_confirmation cid v w = Inr w' \<Longrightarrow>
     sent w' = sent w \<and> effects w' = effects w \<and> ws_open w' = ws_open w \<and> redis w' = redis w"
  by (auto simp: handle_confirmation_def Let_def split: option.splits)



lemma wait_for_event_frame:
  "wait_for_event tmo k calls w = (b, w') \<Longrightarrow>
     sent w' = sent w \<and> effects w' = effects w \<and> ws_open w' = ws_open w \<and> redis w' = redis w"
proof (induction calls arbitrary: w)
  case Nil
  then show ?case by simp
next
  case (Cons call calls)
  obtain t cid v where call: "call = (t, cid, v)" by (cases call)
  show ?case
  proof (cases "tmo \<le> t")
    case True
    with Cons.prems show ?thesis by (simp add: call)
  next
    case False
    define w1 where "w1 = (case handle_confirmation cid v w of Inl e \<Rightarrow> w | Inr w1 \<Rightarrow> w1)"
    have w1: "sent w1 = sent w \<and> effects w1 = effects w \<and> ws_open w1 = ws_open w \<and> redis w1 = redis w"
      unfolding w1_def using handle_confirmation_frame [of cid v w]
      by (cases "handle_confirmation cid v w") auto
    show ?thesis
    proof (cases "pending_confirmations w1 k = Some True")
      case True
      with Cons.prems False have "w' = w1" by (simp add: call w1_def [symmetric] Let_def)
      with w1 show ?thesis by simp
    next
      case nf: False
      with Cons.prems False have "wait_for_event tmo k calls w1 = (b, w')"
        by (simp add: call w1_def [symmetric] Let_def)
      from Cons.IH [OF this] w1 show ?thesis by simp
    qed
  qed
qed



lemma try_send_json_sent:
  "sent (try_send_json f w) = sent w @ (if ws_open w then [f] else [])"
  by (simp add: try_send_json_def send_json_def)

lemma try_send_json_fields:
  "ws_open (try_send_json f w) = ws_open w"
  "effects (try_send_json f w) = effects w"
  "pending_confirmations (try_send_json f w) = pending_confirmations w"
  "confirmation_results (try_send_json f w) = confirmation_results w"
  "redis (try_send_json f w) = redis w"
  by (simp_all add: try_send_json_def send_json_def)

lemma skill_and_action_run_command:
  "skill_and_action run_command = (''bash-execution'', ''run_command'')"
  by code_simp

lemma forget_confirmation_fields:
  "sent (forget_confirmation cid w) = sent w"
  "effects (forget_confirmation cid w) = effects w"
  "ws_open (forget_confirmation cid w) = ws_open w"
  "redis (forget_confirmation cid w) = redis w"
  "pending_confirmations (forget_confirmation cid w) (PStr cid) = None"
  "confirmation_results (forget_confirmation cid w) (PStr cid) = None"
  by (simp_all add: forget_confirmation_def)



lemma confirmation_flow_effects:
  "effects (snd (confirmation_flow xin sn an cr ps w)) = effects w"
proof (cases "send_json (WSConfirmFrame (confirm_id xin) sn an (confirm_question sn an cr) ps) w")
  case (Inl err)
  then show ?thesis by (simp add: confirmation_flow_def Let_def)
next
  case (Inr w1)
  then have e1: "effects w1 = effects w" by (auto simp: send_json_def split: if_splits)
  define w2 where "w2 = w1\<lparr>pending_confirmations := (pending_confirmations w1)(PStr (confirm_id xin) \<mapsto> False)\<rparr>"
  obtain b w3 where w3: "wait_for_event CONFIRM_TIMEOUT_MS (PStr (confirm_id xin)) (arrivals xin) w2 = (b, w3)"
    by (cases "wait_for_event CONFIRM_TIMEOUT_MS (PStr (confirm_id xin)) (arrivals xin) w2")
  from wait_for_event_frame [OF w3] have e3: "effects w3 = effects w" by (simp add: w2_def e1)
  show ?thesis
  proof (cases b)
    case True
    then show ?thesis using Inr w3 e3
      by (simp add: confirmation_flow_def Let_def w2_def [symmetric] forget_confirmation_fields)
  next
    case False
    then show ?thesis using Inr w3 e3
      by (cases "send_json (WSSkillResultFrame sn an False ''Confirmation timed out (60s)'' None) w3")
         (auto simp: confirmation_flow_def Let_def w2_def [symmetric] forget_confirmation_fields
               send_json_def split: if_splits)
  qed
qed

subsection \<open>Unknown skills\<close>

lemma EXECUTOR_MAP_None:
  "func_name \<noteq> run_command \<Longrightarrow> func_name \<notin> set external_executors
     \<Longrightarrow> EXECUTOR_MAP e func_name = None"
  by (simp add: EXECUTOR_MAP_def)

lemma confirmation_need_other:
  "func_name \<noteq> run_command \<Longrightarrow>
   confirmation_need sk func_name ps = Inr (get_confirmation_required sk func_name, None)"
  by (simp add: confirmation_need_def)

text \<open>
  Claim C10. For a tool name that is no key of the dispatch map and whose action needs no
  confirmation, \<open>execute\<close> (called with a dictionary of parameters) does not raise: it
  returns the text \<^verbatim>\<open>Unknown skill action: <name>\<close>. On an open connection it sends the
  start frame and then the result frame with \<open>success = False\<close>; on a closed connection
  the failed sends are swallowed. No executor is invoked; only the audit row is written.
\<close>

theorem execute_unknown_skill:
  assumes "func_name \<noteq> run_command" and "func_name \<notin> set external_executors"
    and "\<not> get_confirmation_required sk func_name"
  shows "\<exists>w'. execute e sk xin func_name (PDict ps) write_enabled w
                 = (Inr (''Unknown skill action: '' @ func_name), w')
              \<and> sent w' = sent w @
                   (if ws_open w
                    then [WSSkillStartFrame (fst (skill_and_action func_name))
                            (snd (skill_and_action func_name)) ps,
                          WSSkillResultFrame (fst (skill_and_action func_name))
                            (snd (skill_and_action func_name)) False
                            (take 500 (''Unknown skill action: '' @ func_name))
                            (Some (duration_ms xin))]
                    else [])
              \<and> effects w' = effects w @
                   (if audit_ok xin
                    then [AuditLogged (fst (skill_and_action func_name))
                            (snd (skill_and_action func_name)) False]
                    else [])"
proof -
  obtain sn an where sa: "skill_and_action func_name = (sn, an)"
    by (cases "skill_and_action func_name")
  show ?thesis
    using assms
    by (simp add: execute_def sa confirmation_need_other EXECUTOR_MAP_None run_skill_def
        try_send_json_sent try_send_json_fields Let_def)
qed

theorem execute_unknown_skill_witness:
  "''nope__x'' \<noteq> run_command
   \<and> filter (\<lambda>n. n = ''nope__x'') external_executors = []
   \<and> get_confirmation_required [] ''nope__x'' = False
   \<and> fst (execute env0 [] xin0 ''nope__x'' (PDict []) False w0)
       = Inr ''Unknown skill action: nope__x''
   \<and> sent (snd (execute env0 [] xin0 ''nope__x'' (PDict []) False w0))
       = [WSSkillStartFrame ''nope'' ''x'' [],
          WSSkillResultFrame ''nope'' ''x'' False ''Unknown skill action: nope__x'' (Some 7)]"
proof -
  have a: "''nope__x'' \<noteq> run_command" by (simp add: run_command_def)
  have b: "''nope__x'' \<notin> set external_executors" by (simp add: external_executors_def)
  have c: "\<not> get_confirmation_required [] ''nope__x''" by code_simp
  have sa: "skill_and_action ''nope__x'' = (''nope'', ''x'')" by code_simp
  have f: "filter (\<lambda>n. n = ''nope__x'') external_executors = []" by code_simp
  from execute_unknown_skill [OF a b c, of env0 xin0 "[]" False w0] obtain w' where
    w': "execute env0 [] xin0 ''nope__x'' (PDict []) False w0
           = (Inr (''Unknown skill action: '' @ ''nope__x''), w')"
    "sent w' = sent w0 @
                   (if ws_open w0
                    then [WSSkillStartFrame (fst (skill_and_action ''nope__x''))
                            (snd (skill_and_action ''nope__x'')) [],
                          WSSkillResultFrame (fst (skill_and_action ''nope__x''))
                            (snd (skill_and_action ''nope__x'')) False
                            (take 500 (''Unknown skill action: '' @ ''nope__x''))
                            (Some (duration_ms xin0))]
                    else [])"
    by blast
  have s: "sent w' = [WSSkillStartFrame ''nope'' ''x'' [],
          WSSkillResultFrame ''nope'' ''x'' False ''Unknown skill action: nope__x'' (Some 7)]"
    using w'(2) by (simp add: sa w0_def xin0_def)
  show ?thesis using a c f w'(1) s by simp
qed

subsection \<open>The confirmation handshake\<close>




subsection \<open>Blocked commands\<close>

lemma map_of_dict_set_other: "k' \<noteq> k \<Longrightarrow> map_of (dict_set k v kvs) k' = map_of kvs k'"
proof -
  assume ne: "k' \<noteq> k"
  have "map_of (map (\<lambda>(a, b). if a = k then (a, v) else (a, b)) kvs) k' = map_of kvs k'"
    using ne by (induction kvs) auto
  moreover have "map_of (kvs @ [(k, v)]) k' = map_of kvs k'"
    using ne by (induction kvs) auto
  ultimately show ?thesis by (simp add: dict_set_def)
qed

lemma bash_execute_blocked:
  "validate_command c = (False, Some reason) \<Longrightarrow>
   bash_execute e (PStr c) timeout w = (Returned (''Blocked: '' @ reason), w)"
  by (simp add: bash_execute_def)

lemma run_skill_blocked:
  assumes cmd: "map_of ps ''command'' = Some (PStr c)"
    and blocked: "validate_command c = (False, Some reason)"
  shows "\<exists>w'. run_skill e xin run_command sn an ps write_enabled w = (''Blocked: '' @ reason, w')
           \<and> sent w' = sent w @
                (if ws_open w
                 then [WSSkillStartFrame sn an ps,
                       WSSkillResultFrame sn an True (take 500 (''Blocked: '' @ reason))
                         (Some (duration_ms xin))]
                 else [])
           \<and> filter is_spawned (effects w') = filter is_spawned (effects w)"
proof -
  define xp where "xp = (if write_enabled then dict_set ''_write_enabled'' (PBool True) ps else ps)"
  have c: "map_of xp ''command'' = Some (PStr c)"
    by (simp add: xp_def cmd map_of_dict_set_other)
  show ?thesis
    by (simp add: run_skill_def xp_def [symmetric] EXECUTOR_MAP_def c
        bash_execute_blocked [OF blocked] try_send_json_sent try_send_json_fields Let_def)
qed

lemma confirmation_need_command:
  "map_of ps ''command'' = Some (PStr c) \<Longrightarrow>
   confirmation_need sk run_command ps
     = Inr (get_confirmation_required sk run_command
              \<or> (case requires_confirmation c of None \<Rightarrow> False | Some r \<Rightarrow> r \<noteq> []),
            requires_confirmation c)"
  by (simp add: confirmation_need_def)

text \<open>
  The claim C3 as stated fails: for the blocked command \<^verbatim>\<open>rm -rf /\<close> the result frame
  carries \<open>success = True\<close>, since the executor returns the block text without raising.
\<close>

theorem execute_blocked_command_counterexample:
  "validate_command ''rm -rf /'' = (False, Some (blocked_reason (fst (BLOCKED_PATTERNS ! 0))))
   \<and> sent (snd (execute env0 [] xin0 run_command (PDict [(''command'', PStr ''rm -rf /'')])
                    False w0))
       = [WSSkillStartFrame ''bash-execution'' ''run_command'' [(''command'', PStr ''rm -rf /'')],
          WSSkillResultFrame ''bash-execution'' ''run_command'' True
            (''Blocked: '' @ blocked_reason (fst (BLOCKED_PATTERNS ! 0))) (Some 7)]"
  by code_simp

text \<open>
  Claim C3, amended. Let the shell tool be invoked with a command that
  \<open>validate_command\<close> blocks. Then no process is handed to the shell, whatever the
  confirmation flow does and whether the connection is open or not. When no confirmation
  is needed, on an open connection, \<open>execute\<close> returns the text \<^verbatim>\<open>Blocked: <reason>\<close> and
  sends the start frame and then a result frame whose output is that text (its first 500
  characters) and whose \<open>success\<close> field is \<open>True\<close>.
\<close>

theorem execute_blocked_command:
  assumes cmd: "map_of ps ''command'' = Some (PStr c)"
    and blocked: "validate_command c = (False, Some reason)"
  shows "filter is_spawned (effects (snd (execute e sk xin run_command (PDict ps) write_enabled w)))
           = filter is_spawned (effects w)
       \<and> (\<forall>cr. confirmation_need sk run_command ps = Inr (False, cr) \<and> ws_open w
             \<longrightarrow> (\<exists>w'. execute e sk xin run_command (PDict ps) write_enabled w
                           = (Inr (''Blocked: '' @ reason), w')
                    \<and> sent w' = sent w @
                         [WSSkillStartFrame ''bash-execution'' ''run_command'' ps,
                          WSSkillResultFrame ''bash-execution'' ''run_command'' True
                            (take 500 (''Blocked: '' @ reason)) (Some (duration_ms xin))]))"
proof -
  note sa = skill_and_action_run_command
  obtain nc cr where need: "confirmation_need sk run_command ps = Inr (nc, cr)"
    by (simp add: confirmation_need_command [OF cmd])
  have spawn: "filter is_spawned (effects (snd (execute e sk xin run_command (PDict ps) write_enabled w)))
           = filter is_spawned (effects w)"
  proof (cases nc)
    case False
    from run_skill_blocked [OF cmd blocked, of e xin "''bash-execution''" "''run_command''" write_enabled w]
    show ?thesis using False by (auto simp: execute_def sa need)
  next
    case True
    obtain r w1 where cf: "confirmation_flow xin ''bash-execution'' ''run_command'' cr ps w = (r, w1)"
      by (cases "confirmation_flow xin ''bash-execution'' ''run_command'' cr ps w")
    have e1: "effects w1 = effects w"
      using confirmation_flow_effects [of xin "''bash-execution''" "''run_command''" cr ps w] cf by simp
    show ?thesis
    proof (cases r)
      case (Inl err)
      then show ?thesis using True cf e1 by (simp add: execute_def sa need)
    next
      case (Inr ok)
      show ?thesis
      proof (cases ok)
        case False
        then show ?thesis using True cf e1 Inr by (simp add: execute_def sa need)
      next
        case ok: True
        from run_skill_blocked [OF cmd blocked, of e xin "''bash-execution''" "''run_command''" write_enabled w1]
        show ?thesis using True cf e1 Inr ok by (auto simp: execute_def sa need)
      qed
    qed
  qed
  have frames: "\<forall>cr. confirmation_need sk run_command ps = Inr (False, cr) \<and> ws_open w
             \<longrightarrow> (\<exists>w'. execute e sk xin run_command (PDict ps) write_enabled w
                           = (Inr (''Blocked: '' @ reason), w')
                    \<and> sent w' = sent w @
                         [WSSkillStartFrame ''bash-execution'' ''run_command'' ps,
                          WSSkillResultFrame ''bash-execution'' ''run_command'' True
                            (take 500 (''Blocked: '' @ reason)) (Some (duration_ms xin))])"
  proof (intro allI impI)
    fix cr' assume a: "confirmation_need sk run_command ps = Inr (False, cr') \<and> ws_open w"
    from run_skill_blocked [OF cmd blocked, of e xin "''bash-execution''" "''run_command''" write_enabled w]
    show "\<exists>w'. execute e sk xin run_command (PDict ps) write_enabled w
                           = (Inr (''Blocked: '' @ reason), w')
                    \<and> sent w' = sent w @
                         [WSSkillStartFrame ''bash-execution'' ''run_command'' ps,
                          WSSkillResultFrame ''bash-execution'' ''run_command'' True
                            (take 500 (''Blocked: '' @ reason)) (Some (duration_ms xin))]"
      using a by (auto simp: execute_def sa)
  qed
  from spawn frames show ?thesis by blast
qed

theorem execute_blocked_command_witness:
  "map_of [(''command'', PStr ''rm -rf /'')] ''command'' = Some (PStr ''rm -rf /'')
   \<and> validate_command ''rm -rf /'' = (False, Some (blocked_reason (fst (BLOCKED_PATTERNS ! 0))))
   \<and> confirmation_need [] run_command [(''command'', PStr ''rm -rf /'')] = Inr (False, None)
   \<and> ws_open w0
   \<and> filter is_spawned
        (effects (snd (execute env0 [] xin0 run_command
                         (PDict [(''command'', PStr ''rm -rf /'')]) False w0))) = []
   \<and> fst (execute env0 [] xin0 run_command (PDict [(''command'', PStr ''rm -rf /'')]) False w0)
       = Inr (''Blocked: '' @ blocked_reason (fst (BLOCKED_PATTERNS ! 0)))"
proof -
  have cmd: "map_of [(''command'', PStr ''rm -rf /'')] ''command'' = Some (PStr ''rm -rf /'')"
    by simp
  note blocked = validate_rm_rf_root
  have need: "confirmation_need [] run_command [(''command'', PStr ''rm -rf /'')]
                = Inr (False, None)"
    by code_simp
  have op: "ws_open w0" by (simp add: w0_def)
  from execute_blocked_command [OF cmd blocked, of env0 "[]" xin0 False w0] need op cmd blocked
  show ?thesis
    by (auto simp: w0_def)
qed

subsection \<open>Resolving a confirmation\<close>

text \<open>
  The claim C5 as stated fails. A call with an id that is not pending stores its value in
  the result table; and a second call for a pending id replaces the value stored by the
  first.
\<close>

theorem handle_confirmation_counterexample:
  "pending_confirmations w0 (PStr ''nope'') = None
   \<and> confirmation_results w0 (PStr ''nope'') = None
   \<and> (case handle_confirmation (PStr ''nope'') (PBool True) w0 of
         Inl err \<Rightarrow> None | Inr w1 \<Rightarrow> confirmation_results w1 (PStr ''nope''))
       = Some (PBool True)
   \<and> (case handle_confirmation (PStr ''c1'') (PBool True)
              (w0\<lparr>pending_confirmations := [PStr ''c1'' \<mapsto> False]\<rparr>) of
         Inl err \<Rightarrow> None
       | Inr w1 \<Rightarrow>
           (case handle_confirmation (PStr ''c1'') (PBool False) w1 of
              Inl err \<Rightarrow> None
            | Inr w2 \<Rightarrow> Some (confirmation_results w1 (PStr ''c1''),
                              confirmation_results w2 (PStr ''c1''))))
       = Some (Some (PBool True), Some (PBool False))"
  by (simp add: handle_confirmation_def w0_def Let_def)

text \<open>
  Claim C5, amended. For a hashable id: when the id is not pending, the call changes
  nothing but the result table, where it stores the value under the id; the pending
  table is unchanged and no event is set. Two calls for the same id leave the pending
  table after the second as it was after the first, and the value stored is that of
  the later call.
\<close>

theorem handle_confirmation_unknown_or_repeated:
  assumes key: "py_key cid = Some k"
  shows "(pending_confirmations w k = None
            \<longrightarrow> handle_confirmation cid v w
                  = Inr (w\<lparr>confirmation_results := (confirmation_results w)(k \<mapsto> v)\<rparr>))
       \<and> (\<exists>w1 w2. handle_confirmation cid v w = Inr w1
             \<and> handle_confirmation cid v2 w1 = Inr w2
             \<and> pending_confirmations w2 = pending_confirmations w1
             \<and> confirmation_results w1 k = Some v
             \<and> confirmation_results w2 k = Some v2)"
  using key by (cases "pending_confirmations w k") (simp_all add: handle_confirmation_def Let_def)

theorem handle_confirmation_unknown_or_repeated_witness:
  "py_key (PStr ''nope'') = Some (PStr ''nope'')
   \<and> pending_confirmations w0 (PStr ''nope'') = None
   \<and> handle_confirmation (PStr ''nope'') (PBool True) w0
       = Inr (w0\<lparr>confirmation_results := (confirmation_results w0)(PStr ''nope'' \<mapsto> PBool True)\<rparr>)"
proof -
  have k: "py_key (PStr ''nope'') = Some (PStr ''nope'')" by simp
  have p: "pending_confirmations w0 (PStr ''nope'') = None" by (simp add: w0_def)
  from handle_confirmation_unknown_or_repeated [OF k, of w0 "PBool True" "PBool True"] k p
  show ?thesis by simp
qed

section \<open>Properties of the gateway\<close>

subsection \<open>The receive loop\<close>

text \<open>
  The claim C6 as stated fails for a frame of another type: the loop sends nothing and
  goes on.
\<close>

theorem message_loop_protocol_errors_counterexample:
  "example_loads ''subscribe'' = Some (PDict [(''type'', PStr ''subscribe'')])
   \<and> fst (message_loop env0 (Some []) [''subscribe''] s0 w0) = WebSocketDisconnect
   \<and> sent (snd (snd (message_loop env0 (Some []) [''subscribe''] s0 w0))) = []"
  by code_simp

text \<open>
  Claim C6, amended. A text that is not JSON is answered, on an open connection, with the
  error frame \<^verbatim>\<open>Invalid JSON\<close>, and the loop goes on with the next text. A JSON object
  whose type is none of \<^verbatim>\<open>ping\<close>, \<^verbatim>\<open>confirm\<close>, \<^verbatim>\<open>message\<close>, \<^verbatim>\<open>chat\<close> is skipped: no
  frame is sent, nothing changes, and the loop goes on with the next text.
\<close>

theorem message_loop_protocol_errors:
  "(json_loads e raw = None \<and> ws_open w
      \<longrightarrow> message_loop e router (raw # inbound) s w
            = message_loop e router inbound s (w\<lparr>sent := sent w @ [WSErrorFrame ''Invalid JSON'']\<rparr>))
   \<and> (\<forall>msg. json_loads e raw = Some (PDict msg)
            \<and> dict_get msg ''type'' (PStr ''message'')
                \<notin> {PStr ''ping'', PStr ''confirm'', PStr ''message'', PStr ''chat''}
      \<longrightarrow> message_loop e router (raw # inbound) s w = message_loop e router inbound s w)"
  by (simp add: send_json_def Let_def)

theorem message_loop_protocol_errors_witness:
  "json_loads env0 ''not json'' = None \<and> ws_open w0
   \<and> json_loads env0 ''subscribe'' = Some (PDict [(''type'', PStr ''subscribe'')])
   \<and> message_loop env0 (Some []) [''not json'', ''subscribe''] s0 w0
       = (WebSocketDisconnect, s0, w0\<lparr>sent := [WSErrorFrame ''Invalid JSON'']\<rparr>)"
proof -
  have a: "json_loads env0 ''not json'' = None \<and> ws_open w0"
    by (simp add: env0_def example_loads_def w0_def)
  have b: "json_loads env0 ''subscribe'' = Some (PDict [(''type'', PStr ''subscribe'')])
           \<and> dict_get [(''type'', PStr ''subscribe'')] ''type'' (PStr ''message'')
               \<notin> {PStr ''ping'', PStr ''confirm'', PStr ''message'', PStr ''chat''}"
    by (simp add: env0_def example_loads_def dict_get_def)
  have "message_loop env0 (Some []) [''not json'', ''subscribe''] s0 w0
          = message_loop env0 (Some []) [''subscribe''] s0
              (w0\<lparr>sent := sent w0 @ [WSErrorFrame ''Invalid JSON'']\<rparr>)"
    using message_loop_protocol_errors [of env0 "''not json''" w0 "Some []" "[''subscribe'']" s0] a
    by blast
  also have "\<dots> = message_loop env0 (Some []) [] s0
                     (w0\<lparr>sent := sent w0 @ [WSErrorFrame ''Invalid JSON'']\<rparr>)"
    using message_loop_protocol_errors [of env0 "''subscribe''" _ "Some []" "[]" s0] b
    by blast
  finally show ?thesis using a b by (simp add: w0_def)
qed

text \<open>
  Claim C1. The code does not do what the claim says. For every chat message with a
  non-blank content the receive loop appends the user message, saves the session, and
  then raises \<^verbatim>\<open>NameError\<close> while it evaluates the arguments of the call of
  \<open>_stream_response\<close>: no chunk frame and no completion frame is sent, no request
  reaches the completion service, and the message list has grown by one, not by two.
\<close>

theorem message_loop_chat_raises_name_error:
  assumes "json_loads e raw = Some (PDict msg)"
    and "dict_get msg ''type'' (PStr ''message'') = PStr ''message''
         \<or> dict_get msg ''type'' (PStr ''message'') = PStr ''chat''"
    and "dict_get msg ''content'' (PStr []) = PStr c" and "strip c \<noteq> []"
  shows "\<exists>s' w'. message_loop e router (raw # inbound) s w = (NameError ''write_enabled'', s', w')
            \<and> sent w' = sent w \<and> effects w' = effects w
            \<and> messages s' = messages s @ [ChatMessage User (strip c)]"
  using assms by (auto simp: Let_def save_session_def)

theorem message_loop_chat_raises_name_error_witness:
  "json_loads env0 ''chat''
     = Some (PDict [(''type'', PStr ''message''), (''content'', PStr ''list containers'')])
   \<and> fst (message_loop env0 (Some []) [''chat''] s0 w0) = NameError ''write_enabled''
   \<and> sent (snd (snd (message_loop env0 (Some []) [''chat''] s0 w0))) = []
   \<and> messages (fst (snd (message_loop env0 (Some []) [''chat''] s0 w0)))
       = [ChatMessage User ''list containers'']"
proof -
  let ?msg = "[(''type'', PStr ''message''), (''content'', PStr ''list containers'')]"
  have a: "json_loads env0 ''chat'' = Some (PDict ?msg)"
    by (simp add: env0_def example_loads_def)
  have b: "dict_get ?msg ''type'' (PStr ''message'') = PStr ''message''
           \<or> dict_get ?msg ''type'' (PStr ''message'') = PStr ''chat''"
    by (simp add: dict_get_def)
  have c: "dict_get ?msg ''content'' (PStr []) = PStr ''list containers''"
    by (simp add: dict_get_def)
  have st: "strip ''list containers'' = ''list containers''" by code_simp
  have d: "strip ''list containers'' \<noteq> []" unfolding st by simp
  from message_loop_chat_raises_name_error [OF a b c d, of "Some []" "[]" s0 w0]
  obtain s' w' where
    x: "message_loop env0 (Some []) [''chat''] s0 w0 = (NameError ''write_enabled'', s', w')"
    and f: "sent w' = sent w0"
    and m: "messages s' = messages s0 @ [ChatMessage User (strip ''list containers'')]"
    by blast
  show ?thesis
    unfolding x fst_conv snd_conv f m st
    using a by (simp add: w0_def s0_def)
qed

subsection \<open>The round loop\<close>

text \<open>
  Entered on its own, \<open>_stream_response\<close> does what the scenario of claim C1 describes:
  one chunk, one completion frame with the content, one assistant message.
\<close>

lemma stream_response_plain_answer:
  "sent (snd (snd (stream_response env0 (Some []) [] False s_asked w0)))
     = [WSChunkFrame ''no tools'', WSMessageDoneFrame ''no tools'']
   \<and> messages (fst (snd (stream_response env0 (Some []) [] False s_asked w0)))
     = [ChatMessage User ''list containers'', ChatMessage Assistant ''no tools'']"
  by code_simp

lemma save_session_fields:
  "sent (save_session s w) = sent w"
  "effects (save_session s w) = effects w"
  "ws_open (save_session s w) = ws_open w"
  "pending_confirmations (save_session s w) = pending_confirmations w"
  "confirmation_results (save_session s w) = confirmation_results w"
  by (simp_all add: save_session_def)

lemma rounds_Suc: "max_tool_rounds + 1 = Suc max_tool_rounds"
  by simp

lemma join_parts_single: "join_parts [c] = c"
  by (simp add: join_parts_def)

lemma append_message_fields:
  "t_parts (append_message m t) = t_parts t"
  "t_done_sent (append_message m t) = t_done_sent t"
  "t_llm_messages (append_message m t) = t_llm_messages t"
  "t_id_remap (append_message m t) = t_id_remap t"
  "t_calls (append_message m t) = t_calls t"
  "messages (t_session (append_message m t)) = messages (t_session t) @ [m]"
  by (simp_all add: append_message_def)

text \<open>
  Claim C2. The code does not do what the claim says. When the completion service
  returns content together with tool calls that are all dropped (no name, or argument
  text that is not JSON), the branch for that case sends the completion frame without
  setting \<open>done_sent\<close>, and the safety net after the loop sends it a second time: the
  turn ends with two completion frames.
\<close>

theorem stream_response_malformed_tool_calls:
  assumes llm: "call_llm_stream e (ChatMessage System sp # fst (history (last_n 20 (messages s)) [])) w
                  = (Inr (c, Some tcs), w1)"
    and c: "c \<noteq> []" and dropped: "valid_tool_calls e tcs = []" and op: "ws_open w1"
  shows "\<exists>s' w'. stream_response e (Some sk) sp write_enabled s w = (None, s', w')
            \<and> sent w' = sent w1 @ [WSMessageDoneFrame c, WSMessageDoneFrame c]"
proof -
  obtain hist remap where h: "history (last_n 20 (messages s)) [] = (hist, remap)"
    by (cases "history (last_n 20 (messages s)) []")
  define t0 where "t0 = \<lparr>t_session = s, t_llm_messages = ChatMessage System sp # hist,
                     t_id_remap = remap, t_parts = [], t_done_sent = False, t_calls = 0\<rparr>"
  define t1 where "t1 = t0\<lparr>t_parts := [c]\<rparr>"
  define t2 where "t2 = append_message (ChatMessage Assistant c) t1"
  define w2 where "w2 = save_session (t_session t2) (w1\<lparr>sent := sent w1 @ [WSMessageDoneFrame c]\<rparr>)"
  have llm': "call_llm_stream e (t_llm_messages t0) w = (Inr (c, Some tcs), w1)"
    using llm by (simp add: t0_def h)
  have r: "round_loop (Suc max_tool_rounds) e (Some sk) write_enabled t0 w = (None, t2, w2)"
    using llm' c dropped op
    by (simp add: round_loop.simps send_json_open t1_def t2_def w2_def t0_def Let_def)
  have t2f: "\<not> t_done_sent t2" "t_parts t2 = [c]"
    by (simp_all add: t2_def t1_def t0_def append_message_fields)
  have op2: "ws_open w2" using op by (simp add: w2_def save_session_fields)
  have last: "messages (t_session t2) \<noteq> [] \<and> content (last (messages (t_session t2))) = c"
    by (simp add: t2_def append_message_fields ChatMessage_def)
  have sn: "safety_net t2 w2
              = (None, t2, save_session (t_session t2) (w2\<lparr>sent := sent w2 @ [WSMessageDoneFrame c]\<rparr>))"
    using t2f op2 last c by (simp add: safety_net_def join_parts_single send_json_open Let_def)
  have "stream_response e (Some sk) sp write_enabled s w
          = (None, t_session t2, save_session (t_session t2) (w2\<lparr>sent := sent w2 @ [WSMessageDoneFrame c]\<rparr>))"
    unfolding stream_response_def h rounds_Suc
    by (simp add: t0_def [symmetric] r sn)
  then show ?thesis by (simp add: save_session_fields w2_def)
qed

lemma call_llm_stream_malformed:
  "call_llm_stream env_malformed msgs w0
     = (Inr (''hi'', Some [\<lparr>tc_id = ''toolu_1'', tc_name = ''system-status__cpu'',
                             tc_arguments = ''{''\<rparr>]),
        w0\<lparr>effects := [LlmCalled], sent := [WSChunkFrame ''hi'']\<rparr>)"
proof -
  have fs: "finish_stream ''hi'' (apply_tc_delta [] tc_malformed)
              = (''hi'', Some [\<lparr>tc_id = ''toolu_1'', tc_name = ''system-status__cpu'',
                                 tc_arguments = ''{''\<rparr>])"
    by code_simp
  have l: "llm env_malformed msgs
             = Response 200 [] [Delta (Some ''hi'') [tc_malformed], DoneMarker] None"
    by (simp add: env_malformed_def env0_def)
  show ?thesis
    by (simp add: call_llm_stream_def l fs Let_def send_json_def w0_def)
qed

theorem stream_response_malformed_tool_calls_witness:
  "valid_tool_calls env_malformed
     [\<lparr>tc_id = ''toolu_1'', tc_name = ''system-status__cpu'', tc_arguments = ''{''\<rparr>] = []
   \<and> fst (stream_response env_malformed (Some []) [] False s_asked w0) = None
   \<and> sent (snd (snd (stream_response env_malformed (Some []) [] False s_asked w0)))
       = [WSChunkFrame ''hi'', WSMessageDoneFrame ''hi'', WSMessageDoneFrame ''hi'']"
proof -
  let ?tcs = "[\<lparr>tc_id = ''toolu_1'', tc_name = ''system-status__cpu'', tc_arguments = ''{''\<rparr>]"
  let ?w1 = "w0\<lparr>effects := [LlmCalled], sent := [WSChunkFrame ''hi'']\<rparr>"
  have v: "valid_tool_calls env_malformed ?tcs = []" by code_simp
  have c: "''hi'' \<noteq> []" by simp
  have op: "ws_open ?w1" by (simp add: w0_def)
  from stream_response_malformed_tool_calls
         [where sk = "[]" and write_enabled = False and sp = "[]" and s = s_asked,
          OF call_llm_stream_malformed c v op]
  obtain s' w' where
    x: "stream_response env_malformed (Some []) [] False s_asked w0 = (None, s', w')"
    and f: "sent w' = sent ?w1 @ [WSMessageDoneFrame ''hi'', WSMessageDoneFrame ''hi'']"
    by blast
  show ?thesis
    unfolding x fst_conv snd_conv f
    using v by simp
qed

subsection \<open>The bound on the rounds\<close>

lemma error_and_return_frame:
  "error_and_return detail c w = (r, w1) \<Longrightarrow>
     done_frames w1 = done_frames w \<and> effects w1 = effects w \<and> ws_open w1 = ws_open w"
  by (auto simp: error_and_return_def send_json_def done_frames_def split: if_splits)

lemma consume_events_frame:
  "consume_events evs fl c cur w = (r, w1) \<Longrightarrow>
     done_frames w1 = done_frames w \<and> effects w1 = effects w \<and> ws_open w1 = ws_open w"
proof (induction evs fl c cur w rule: consume_events.induct)
  case (7 c0 tds evs fl full_content current w)
  show ?case
  proof (cases "c0 = None \<or> c0 = Some []")
    case True
    with "7" show ?thesis by (auto split: option.splits)
  next
    case False
    then obtain piece where piece: "c0 = Some piece" "piece \<noteq> []" by (cases c0) auto
    show ?thesis
    proof (cases "ws_open w")
      case True
      with "7" piece show ?thesis
        by (auto simp: send_json_def done_frames_def)
    next
      case False
      with "7" piece show ?thesis
        by (auto simp: send_json_def done_frames_def)
    qed
  qed
qed (auto dest: error_and_return_frame)

lemma call_llm_stream_frame:
  assumes "call_llm_stream e msgs w = (r, w1)"
  shows "done_frames w1 = done_frames w \<and> llm_calls w1 = Suc (llm_calls w)
         \<and> ws_open w1 = ws_open w"
proof -
  define wa where "wa = w\<lparr>effects := effects w @ [LlmCalled]\<rparr>"
  have wa: "done_frames wa = done_frames w" "llm_calls wa = Suc (llm_calls w)"
    "ws_open wa = ws_open w"
    by (simp_all add: wa_def done_frames_def llm_calls_def)
  have "done_frames w1 = done_frames wa \<and> effects w1 = effects wa \<and> ws_open w1 = ws_open wa"
  proof (cases "llm e msgs")
    case (NoResponse f)
    then show ?thesis using assms error_and_return_frame
      by (cases f) (auto simp: call_llm_stream_def Let_def wa_def [symmetric])
  next
    case (Response status body evs fl)
    then show ?thesis using assms error_and_return_frame consume_events_frame
      by (auto simp: call_llm_stream_def Let_def wa_def [symmetric] split: if_splits)
  qed
  then show ?thesis using wa by (simp add: llm_calls_def)
qed

lemma confirmation_flow_open_eq:
  assumes op: "ws_open w"
  shows "\<exists>w3. sent w3 = sent w @ [WSConfirmFrame (confirm_id xin) sn an (confirm_question sn an cr) ps]
           \<and> ws_open w3
           \<and> (confirmation_flow xin sn an cr ps w
                = (Inr (truthy (case confirmation_results w3 (PStr (confirm_id xin)) of
                                  None \<Rightarrow> PBool False | Some v \<Rightarrow> v)),
                   forget_confirmation (confirm_id xin) w3)
              \<or> confirmation_flow xin sn an cr ps w
                = (Inr False,
                   forget_confirmation (confirm_id xin)
                     (w3\<lparr>sent := sent w3 @ [WSSkillResultFrame sn an False
                                               ''Confirmation timed out (60s)'' None]\<rparr>)))"
proof -
  let ?f = "WSConfirmFrame (confirm_id xin) sn an (confirm_question sn an cr) ps"
  define wa where "wa = w\<lparr>sent := sent w @ [?f]\<rparr>"
  define w2 where "w2 = wa\<lparr>pending_confirmations := (pending_confirmations wa)(PStr (confirm_id xin) \<mapsto> False)\<rparr>"
  obtain b w3 where w3: "wait_for_event CONFIRM_TIMEOUT_MS (PStr (confirm_id xin)) (arrivals xin) w2 = (b, w3)"
    by (cases "wait_for_event CONFIRM_TIMEOUT_MS (PStr (confirm_id xin)) (arrivals xin) w2")
  from wait_for_event_frame [OF w3] have f3: "sent w3 = sent w @ [?f]" "ws_open w3"
    using op by (simp_all add: w2_def wa_def)
  have s1: "send_json ?f w = Inr wa" using op by (simp add: send_json_open wa_def)
  show ?thesis
  proof (cases b)
    case True
    have "confirmation_flow xin sn an cr ps w
                = (Inr (truthy (case confirmation_results w3 (PStr (confirm_id xin)) of
                                  None \<Rightarrow> PBool False | Some v \<Rightarrow> v)),
                   forget_confirmation (confirm_id xin) w3)"
      using s1 w3 True by (simp add: confirmation_flow_def Let_def w2_def [symmetric])
    with f3 show ?thesis by blast
  next
    case False
    have "confirmation_flow xin sn an cr ps w
                = (Inr False,
                   forget_confirmation (confirm_id xin)
                     (w3\<lparr>sent := sent w3 @ [WSSkillResultFrame sn an False
                                               ''Confirmation timed out (60s)'' None]\<rparr>))"
      using s1 w3 False f3(2)
      by (simp add: confirmation_flow_def Let_def w2_def [symmetric] send_json_open)
    with f3 show ?thesis by blast
  qed
qed

lemma confirmation_flow_frame:
  assumes a: "confirmation_flow xin sn an cr ps w = (r, w1)"
  shows "done_frames w1 = done_frames w \<and> ws_open w1 = ws_open w"
proof (cases "ws_open w")
  case False
  then show ?thesis using a by (simp add: confirmation_flow_def Let_def send_json_def)
next
  case True
  from confirmation_flow_open_eq [OF True, of xin sn an cr ps] a True show ?thesis
    by (auto simp: forget_confirmation_fields done_frames_def)
qed

lemma confirmation_flow_open:
  assumes "ws_open w"
  shows "\<exists>b. fst (confirmation_flow xin sn an cr ps w) = Inr b"
  using confirmation_flow_open_eq [OF assms, of xin sn an cr ps] by auto

lemma bash_execute_frame:
  "bash_execute e c t w = (out, w1) \<Longrightarrow>
     sent w1 = sent w \<and> ws_open w1 = ws_open w \<and> llm_calls w1 = llm_calls w"
  by (auto simp: bash_execute_def Let_def llm_calls_def
      split: pyval.splits bool.splits shell_outcome.splits prod.splits)

lemma executor_frame:
  "EXECUTOR_MAP e f = Some ex \<Longrightarrow> ex kw w = (out, w1) \<Longrightarrow>
     sent w1 = sent w \<and> ws_open w1 = ws_open w \<and> llm_calls w1 = llm_calls w"
  by (auto simp: EXECUTOR_MAP_def dest: bash_execute_frame split: if_splits option.splits)

lemma run_skill_tail:
  assumes "w3 = try_send_json (WSSkillResultFrame sn an ok out d) w2"
    and "w4 = (if au then w3\<lparr>effects := effects w3 @ [AuditLogged sn an ok]\<rparr> else w3)"
  shows "done_frames w4 = done_frames w2 \<and> ws_open w4 = ws_open w2 \<and> llm_calls w4 = llm_calls w2"
  using assms
  by (simp add: try_send_json_sent try_send_json_fields done_frames_def llm_calls_def)

lemma run_skill_frame:
  assumes "run_skill e xin f sn an ps we w = (r, w1)"
  shows "done_frames w1 = done_frames w \<and> ws_open w1 = ws_open w \<and> llm_calls w1 = llm_calls w"
proof -
  define wa where "wa = try_send_json (WSSkillStartFrame sn an ps) w"
  define xp where "xp = (if we then dict_set ''_write_enabled'' (PBool True) ps else ps)"
  have wa: "done_frames wa = done_frames w" "ws_open wa = ws_open w" "llm_calls wa = llm_calls w"
    by (simp_all add: wa_def try_send_json_sent try_send_json_fields done_frames_def llm_calls_def)
  define mid where "mid = (case EXECUTOR_MAP e f of
               None \<Rightarrow> (''Unknown skill action: '' @ f, False, wa)
             | Some executor \<Rightarrow>
                 (case executor xp (wa\<lparr>effects := effects wa @ [Invoked f xp]\<rparr>) of
                    (Returned r, w') \<Rightarrow> (r, True, w')
                  | (Raised msg, w') \<Rightarrow> (''Skill execution error: '' @ msg, False, w')))"
  obtain res ok wb where mid': "mid = (res, ok, wb)" by (cases mid)
  have wb: "done_frames wb = done_frames wa \<and> ws_open wb = ws_open wa \<and> llm_calls wb = llm_calls wa"
  proof (cases "EXECUTOR_MAP e f")
    case None
    then show ?thesis using mid' by (simp add: mid_def)
  next
    case (Some ex)
    obtain out wc where ex: "ex xp (wa\<lparr>effects := effects wa @ [Invoked f xp]\<rparr>) = (out, wc)"
      by (cases "ex xp (wa\<lparr>effects := effects wa @ [Invoked f xp]\<rparr>)")
    from executor_frame [OF Some ex] have wc:
      "sent wc = sent wa" "ws_open wc = ws_open wa" "llm_calls wc = llm_calls wa"
      by (simp_all add: llm_calls_def)
    have "wb = wc" using mid' Some ex by (cases out) (simp_all add: mid_def)
    then show ?thesis using wc by (simp add: done_frames_def)
  qed
  have "w1 = (let w3 = try_send_json (WSSkillResultFrame sn an ok (take 500 res)
                                (Some (duration_ms xin))) wb
              in if audit_ok xin then w3\<lparr>effects := effects w3 @ [AuditLogged sn an ok]\<rparr> else w3)"
    using assms mid'
    by (auto simp: run_skill_def Let_def wa_def [symmetric] xp_def [symmetric] mid_def [symmetric])
  from run_skill_tail [OF refl this [unfolded Let_def]] wb wa show ?thesis by simp
qed

lemma execute_frame:
  assumes "execute e sk xin f args we w = (r, w1)"
  shows "done_frames w1 = done_frames w \<and> ws_open w1 = ws_open w \<and> llm_calls w1 = llm_calls w"
proof -
  obtain sn an where sa: "skill_and_action f = (sn, an)" by (cases "skill_and_action f")
  show ?thesis
  proof (cases args)
    case (PDict ps)
    show ?thesis
    proof (cases "confirmation_need sk f ps")
      case (Inl err)
      then show ?thesis using assms PDict by (simp add: execute_def sa)
    next
      case (Inr x)
      obtain nc cr where x: "x = (nc, cr)" by (cases x)
      define cf where "cf = (if nc then confirmation_flow xin sn an cr ps w else (Inr True, w))"
      obtain b wa where cf': "cf = (b, wa)" by (cases cf)
      have wa: "done_frames wa = done_frames w \<and> ws_open wa = ws_open w \<and> llm_calls wa = llm_calls w"
        using cf' confirmation_flow_frame [of xin sn an cr ps w b wa]
          confirmation_flow_effects [of xin sn an cr ps w]
        by (cases nc) (auto simp: cf_def llm_calls_def)
      have ex: "execute e sk xin f args we w
                  = (case cf of
                       (Inl err, w1) \<Rightarrow> (Inl err, w1)
                     | (Inr False, w1) \<Rightarrow> (Inr ''Action cancelled by user.'', w1)
                     | (Inr True, w1) \<Rightarrow>
                         (case run_skill e xin f sn an ps we w1 of
                            (result, w2) \<Rightarrow> (Inr result, w2)))"
        by (simp add: execute_def sa PDict Inr x cf_def)
      show ?thesis
      proof (cases b)
        case (Inl err)
        then show ?thesis using assms wa by (simp add: ex cf')
      next
        case (Inr ok)
        show ?thesis
        proof (cases ok)
          case False
          then show ?thesis using assms wa Inr by (simp add: ex cf')
        next
          case True
          obtain res wb where rs: "run_skill e xin f sn an ps we wa = (res, wb)"
            by (cases "run_skill e xin f sn an ps we wa")
          from run_skill_frame [OF rs] show ?thesis using assms wa Inr True rs
            by (simp add: ex cf')
        qed
      qed
    qed
  qed (use assms in \<open>auto simp: execute_def sa split: if_splits\<close>)
qed

lemma execute_open_returns:
  assumes "ws_open w" and "confirmation_need sk f ps = Inr x"
  shows "\<exists>r. fst (execute e sk xin f (PDict ps) we w) = Inr r"
proof -
  obtain sn an where sa: "skill_and_action f = (sn, an)" by (cases "skill_and_action f")
  obtain nc cr where x: "x = (nc, cr)" by (cases x)
  show ?thesis
  proof (cases nc)
    case False
    then show ?thesis using assms
      by (simp add: execute_def sa x split: prod.splits)
  next
    case True
    from confirmation_flow_open [OF assms(1), of xin sn an cr ps] obtain b where
      b: "fst (confirmation_flow xin sn an cr ps w) = Inr b" by blast
    then obtain wa where cf: "confirmation_flow xin sn an cr ps w = (Inr b, wa)"
      by (cases "confirmation_flow xin sn an cr ps w") auto
    show ?thesis using assms True cf
      by (cases b) (simp_all add: execute_def sa x split: prod.splits)
  qed
qed

lemma run_tool_calls_frame:
  assumes "ws_open w" and "well_formed_calls sk calls"
  shows "\<exists>t' w'. run_tool_calls e sk we calls t w = (None, t', w')
           \<and> done_frames w' = done_frames w \<and> llm_calls w' = llm_calls w \<and> ws_open w'
           \<and> t_done_sent t' = t_done_sent t \<and> t_parts t' = t_parts t"
  using assms
proof (induction calls arbitrary: t w)
  case Nil
  then show ?case by (simp add: run_tool_calls.simps)
next
  case (Cons call calls)
  obtain tc f a where call: "call = (tc, f, a)" by (cases call)
  from Cons.prems(2) obtain ps x where a: "a = PDict ps" and need: "confirmation_need sk f ps = Inr x"
    and rest: "well_formed_calls sk calls"
    by (auto simp: well_formed_calls_def call split: pyval.splits sum.splits)
  from execute_open_returns [OF Cons.prems(1) need, of e "exec_input e (t_calls t)" we]
  obtain r w1 where ex: "execute e sk (exec_input e (t_calls t)) f (PDict ps) we w = (Inr r, w1)"
    by (cases "execute e sk (exec_input e (t_calls t)) f (PDict ps) we w") auto
  from execute_frame [OF ex] Cons.prems(1) have w1:
    "done_frames w1 = done_frames w" "llm_calls w1 = llm_calls w" "ws_open w1" by simp_all
  define tid where "tid = remap_get (t_id_remap t) (tc_id tc)"
  define t2 where "t2 = append_message \<lparr>role = Tool, content = r, tool_call_id = Some tid,
                                        tool_calls = None, name = Some f\<rparr>
                         (t\<lparr>t_llm_messages := t_llm_messages t @
                               [\<lparr>role = Tool, content = (if r = [] then ''(no output)'' else r),
                                 tool_call_id = Some tid, tool_calls = None, name = Some f\<rparr>],
                            t_calls := Suc (t_calls t)\<rparr>)"
  have step: "run_tool_calls e sk we (call # calls) t w = run_tool_calls e sk we calls t2 w1"
    by (simp add: run_tool_calls.simps call a ex Let_def t2_def tid_def)
  have t2: "t_done_sent t2 = t_done_sent t" "t_parts t2 = t_parts t"
    by (simp_all add: t2_def append_message_fields)
  from Cons.IH [OF w1(3) rest, of t2] show ?case
    unfolding step using w1 t2 by auto
qed

lemma round_loop_always_tool:
  assumes at: "always_tool_calls e sk" and op: "ws_open w" and nd: "\<not> t_done_sent t"
  shows "\<exists>t' w'. round_loop n e (Some sk) we t w = (None, t', w')
           \<and> done_frames w' = done_frames w \<and> llm_calls w' = llm_calls w + n \<and> ws_open w'
           \<and> \<not> t_done_sent t'"
  using op nd
proof (induction n arbitrary: t w)
  case 0
  then show ?case by (simp add: round_loop.simps)
next
  case (Suc n)
  from at Suc.prems(1) obtain c tcs w1 where
    llm: "call_llm_stream e (t_llm_messages t) w = (Inr (c, Some tcs), w1)"
    and v: "valid_tool_calls e tcs \<noteq> []" and wf: "well_formed_calls sk (valid_tool_calls e tcs)"
    unfolding always_tool_calls_def by blast
  from call_llm_stream_frame [OF llm] Suc.prems(1) have w1:
    "done_frames w1 = done_frames w" "llm_calls w1 = Suc (llm_calls w)" "ws_open w1"
    by simp_all
  define t1 where "t1 = (if c \<noteq> [] then t\<lparr>t_parts := t_parts t @ [c]\<rparr> else t)"
  obtain normalized remap' where nz:
    "normalize_tool_calls tcs (t_id_remap t1) = (normalized, remap')"
    by (cases "normalize_tool_calls tcs (t_id_remap t1)")
  define am where "am = \<lparr>role = Assistant, content = c, tool_call_id = None,
                          tool_calls = Some normalized, name = None\<rparr>"
  define t2 where "t2 = append_message am
                          (t1\<lparr>t_id_remap := remap', t_llm_messages := t_llm_messages t1 @ [am]\<rparr>)"
  have t2: "\<not> t_done_sent t2"
    using Suc.prems(2) by (simp add: t2_def t1_def append_message_fields)
  from run_tool_calls_frame [OF w1(3) wf, of e we t2] obtain t3 w2 where
    rt: "run_tool_calls e sk we (valid_tool_calls e tcs) t2 w1 = (None, t3, w2)"
    and w2: "done_frames w2 = done_frames w1" "llm_calls w2 = llm_calls w1" "ws_open w2"
    and t3: "t_done_sent t3 = t_done_sent t2"
    by blast
  have step: "round_loop (Suc n) e (Some sk) we t w
                = round_loop n e (Some sk) we t3 (save_session (t_session t3) w2)"
    using v
    by (simp add: round_loop.simps llm Let_def t1_def [symmetric] nz am_def [symmetric]
        t2_def [symmetric] rt)
  have op3: "ws_open (save_session (t_session t3) w2)" using w2(3) by (simp add: save_session_fields)
  have nd3: "\<not> t_done_sent t3" using t3 t2 by simp
  from Suc.IH [OF op3 nd3] show ?case
    unfolding step using w1 w2
    by (auto simp: done_frames_def llm_calls_def save_session_fields)
qed

lemma safety_net_sends_once:
  assumes "ws_open w" and "\<not> t_done_sent t"
  shows "\<exists>t' w' c. safety_net t w = (None, t', w')
           \<and> done_frames w' = done_frames w @ [WSMessageDoneFrame c]
           \<and> llm_calls w' = llm_calls w"
  using assms
  by (auto simp: safety_net_def Let_def send_json_open save_session_fields
      done_frames_def llm_calls_def)

text \<open>
  Claim C4. The code does not do what the claim says. Against a completion service that
  always returns a new tool call, on an open connection, the turn ends without an
  exception and with exactly one completion frame, but after
  \<open>max_tool_rounds + 1\<close> requests to the completion service, each followed by the
  execution of its tool calls: six rounds for the limit of five.
\<close>

theorem stream_response_round_bound:
  assumes at: "always_tool_calls e sk" and op: "ws_open w"
  shows "\<exists>s' w' c. stream_response e (Some sk) sp write_enabled s w = (None, s', w')
           \<and> llm_calls w' = llm_calls w + (max_tool_rounds + 1)
           \<and> done_frames w' = done_frames w @ [WSMessageDoneFrame c]"
proof -
  obtain hist remap where h: "history (last_n 20 (messages s)) [] = (hist, remap)"
    by (cases "history (last_n 20 (messages s)) []")
  define t0 where "t0 = \<lparr>t_session = s, t_llm_messages = ChatMessage System sp # hist,
                     t_id_remap = remap, t_parts = [], t_done_sent = False, t_calls = 0\<rparr>"
  have nd: "\<not> t_done_sent t0" by (simp add: t0_def)
  from round_loop_always_tool [OF at op nd, of "max_tool_rounds + 1" write_enabled]
  obtain t1 w1 where r: "round_loop (max_tool_rounds + 1) e (Some sk) write_enabled t0 w = (None, t1, w1)"
    and w1: "done_frames w1 = done_frames w" "llm_calls w1 = llm_calls w + (max_tool_rounds + 1)"
      "ws_open w1" and t1: "\<not> t_done_sent t1"
    by blast
  from safety_net_sends_once [OF w1(3) t1] obtain t2 w2 c where
    sn: "safety_net t1 w1 = (None, t2, w2)"
    and w2: "done_frames w2 = done_frames w1 @ [WSMessageDoneFrame c]" "llm_calls w2 = llm_calls w1"
    by blast
  have r': "round_loop (Suc max_tool_rounds) e (Some sk) write_enabled t0 w = (None, t1, w1)"
    using r by simp
  have "stream_response e (Some sk) sp write_enabled s w = (None, t_session t2, w2)"
    unfolding stream_response_def h
    by (simp add: t0_def [symmetric] r' sn)
  then show ?thesis using w1 w2 by auto
qed

lemma always_tool_calls_example: "always_tool_calls env_always_tool []"
proof -
  have v: "valid_tool_calls env_always_tool
             [\<lparr>tc_id = ''toolu_1'', tc_name = ''system-status__cpu'', tc_arguments = ''{}''\<rparr>]
           = [(\<lparr>tc_id = ''toolu_1'', tc_name = ''system-status__cpu'', tc_arguments = ''{}''\<rparr>,
               ''system-status__cpu'', PDict [])]"
    by code_simp
  have n: "confirmation_need [] ''system-status__cpu'' [] = Inr (False, None)"
    by code_simp
  have fs: "finish_stream [] (apply_tc_delta [] tc_cpu)
              = ([], Some [\<lparr>tc_id = ''toolu_1'', tc_name = ''system-status__cpu'',
                             tc_arguments = ''{}''\<rparr>])"
    by code_simp
  have l: "\<And>msgs. llm env_always_tool msgs = Response 200 [] [Delta None [tc_cpu], DoneMarker] None"
    by (simp add: env_always_tool_def env0_def)
  let ?tc = "\<lparr>tc_id = ''toolu_1'', tc_name = ''system-status__cpu'', tc_arguments = ''{}''\<rparr>"
  have cs: "\<And>msgs w. call_llm_stream env_always_tool msgs w
              = (Inr ([], Some [?tc]), w\<lparr>effects := effects w @ [LlmCalled]\<rparr>)"
    by (simp add: call_llm_stream_def l fs Let_def)
  show ?thesis
    unfolding always_tool_calls_def
  proof (intro allI impI)
    fix msgs w
    have "valid_tool_calls env_always_tool [?tc] \<noteq> []"
      unfolding v by simp
    moreover have "well_formed_calls [] (valid_tool_calls env_always_tool [?tc])"
      unfolding v by (simp add: well_formed_calls_def n)
    ultimately show "\<exists>c tcs w1. call_llm_stream env_always_tool msgs w = (Inr (c, Some tcs), w1)
           \<and> valid_tool_calls env_always_tool tcs \<noteq> []
           \<and> well_formed_calls [] (valid_tool_calls env_always_tool tcs)"
      using cs [of msgs w] by blast
  qed
qed

theorem stream_response_round_bound_witness:
  "always_tool_calls env_always_tool [] \<and> ws_open w0 \<and> max_tool_rounds = 5
   \<and> fst (stream_response env_always_tool (Some []) [] False s_asked w0) = None
   \<and> llm_calls (snd (snd (stream_response env_always_tool (Some []) [] False s_asked w0))) = 6
   \<and> length (done_frames (snd (snd (stream_response env_always_tool (Some []) [] False
                                         s_asked w0)))) = 1"
proof -
  note at = always_tool_calls_example
  have op: "ws_open w0" by (simp add: w0_def)
  have z: "llm_calls w0 = 0" "done_frames w0 = []"
    by (simp_all add: llm_calls_def done_frames_def w0_def)
  from stream_response_round_bound [OF at op, of "[]" False s_asked]
  obtain s' w' c where
    x: "stream_response env_always_tool (Some []) [] False s_asked w0 = (None, s', w')"
    and n: "llm_calls w' = llm_calls w0 + (max_tool_rounds + 1)"
    and d: "done_frames w' = done_frames w0 @ [WSMessageDoneFrame c]"
    by blast
  show ?thesis
    unfolding x fst_conv snd_conv n d z
    using at op by (simp add: max_tool_rounds_def)
qed

end
